theory Spec2Isabelle
  imports Main "HOL-Library.AList"
begin

section \<open>Python values, errors and slices\<close>

text \<open>
  The exceptions the two modules can raise.  The specification calls
  \<open>TypeError\<close> InvalidArgumentError, \<open>ValueError\<close> SizeMismatchError,
  \<open>DomainError\<close> DomainConflictError and \<open>NotImplementedError\<close>
  UnsupportedOperationError.  \<open>IndexError\<close> and \<open>KeyError\<close> are the failures of
  Python's own list and dict reads.
\<close>

datatype error =
  TypeError | ValueError | IndexError | KeyError | NotImplementedError | DomainError

text \<open>
  A Python \<open>slice(start, stop)\<close> object; either bound may be \<open>None\<close>.  The step is
  always \<open>None\<close> in this development.
\<close>

datatype pyslice = Slice (start: "int option") (stop: "int option")

text \<open>A positional constructor argument: a slice object, or any other Python object.\<close>

datatype arg = SliceArg pyslice | NonSlice

fun is_slice :: "arg \<Rightarrow> bool" where
  "is_slice (SliceArg s) = True"
| "is_slice NonSlice = False"

fun the_slice :: "arg \<Rightarrow> pyslice" where
  "the_slice (SliceArg s) = s"
| "the_slice NonSlice = Slice None None"

text \<open>Python list reads \<open>xs[0]\<close>, \<open>xs[-1]\<close> and \<open>xs[i]\<close>; out of range raises.\<close>

definition first_item :: "'a list \<Rightarrow> error + 'a" where
  "first_item xs = (case xs of [] \<Rightarrow> Inl IndexError | x # _ \<Rightarrow> Inr x)"

definition last_item :: "'a list \<Rightarrow> error + 'a" where
  "last_item xs = (if xs = [] then Inl IndexError else Inr (last xs))"

definition item :: "'a list \<Rightarrow> nat \<Rightarrow> error + 'a" where
  "item xs i = (if i < length xs then Inr (xs ! i) else Inl IndexError)"

text \<open>\<open>"{:d}".format(v)\<close>: the decimal numeral of an integer; \<open>None\<close> raises TypeError.\<close>

fun digits :: "nat \<Rightarrow> string" where
  "digits n = (if n < 10 then [char_of (48 + n)]
               else digits (n div 10) @ [char_of (48 + n mod 10)])"

declare digits.simps [simp del]

definition format_d :: "int option \<Rightarrow> error + string" where
  "format_d v = (case v of
       None \<Rightarrow> Inl TypeError
     | Some i \<Rightarrow> Inr (if i < 0 then CHR ''-'' # digits (nat (- i)) else digits (nat i)))"

text \<open>
  \<open>slice.indices(n)\<close> for a step of \<open>None\<close>: a negative bound counts from the end, and
  both bounds are clipped to \<open>[0, n]\<close>.
\<close>

definition clip_bound :: "nat \<Rightarrow> int \<Rightarrow> nat" where
  "clip_bound n v = (if v < 0 then nat (max (v + int n) 0) else nat (min v (int n)))"

definition slice_indices :: "pyslice \<Rightarrow> nat \<Rightarrow> nat \<times> nat" where
  "slice_indices s n =
     ((case start s of None \<Rightarrow> 0 | Some v \<Rightarrow> clip_bound n v),
      (case stop s of None \<Rightarrow> n | Some v \<Rightarrow> clip_bound n v))"

text \<open>\<open>xs[s]\<close>: the sub-list a slice reads.\<close>

definition get_slice :: "'a list \<Rightarrow> pyslice \<Rightarrow> 'a list" where
  "get_slice xs s = (case slice_indices s (length xs) of (lo, hi) \<Rightarrow> take (hi - lo) (drop lo xs))"

text \<open>\<open>array[s] = True\<close> on a one-dimensional array.\<close>

definition set_slice_True :: "bool list \<Rightarrow> pyslice \<Rightarrow> bool list" where
  "set_slice_True array s =
     (case slice_indices s (length array) of (lo, hi) \<Rightarrow>
        map (\<lambda>i. if lo \<le> i \<and> i < hi then True else array ! i) [0..<length array])"

text \<open>
  \<open>np.zeros(n)\<close> followed by the conversion to booleans: a negative length raises
  ValueError.  A length of \<open>None\<close> gives no one-dimensional array and the constructor
  fails on it; the failure is kept as TypeError.
\<close>

definition np_zeros :: "int option \<Rightarrow> error + bool list" where
  "np_zeros n = (case n of
       None \<Rightarrow> Inl TypeError
     | Some k \<Rightarrow> if k < 0 then Inl ValueError else Inr (replicate (nat k) False))"

section \<open>Symbols and state vectors\<close>

text \<open>
  Modelled from the spec: the base class \<open>pybamm.Symbol\<close> is not among the sources.  A
  node carries a name, a domain (a list of domain names) and auxiliary domains, a dict
  from level to domain, kept here as an association list in insertion order.
\<close>

record symbol =
  name :: string
  domain :: "string list"
  auxiliary_domains :: "(string \<times> string list) list"

record state_vector = symbol +
  y_slices :: "pyslice list"
  first_point :: "int option"
  last_point :: "int option"
  evaluation_array :: "bool list"

text \<open>
  \<open>StateVector.set_evaluation_array\<close>.  The first argument is
  \<open>pybamm.settings.debug_mode\<close>.
\<close>

definition set_evaluation_array ::
  "bool \<Rightarrow> pyslice list \<Rightarrow> bool list option \<Rightarrow> error + bool list" where
  "set_evaluation_array debug_mode ys evaluation_array_arg =
     (if evaluation_array_arg \<noteq> None \<and> \<not> debug_mode then Inr (the evaluation_array_arg)
      else case last_item ys of
          Inl e \<Rightarrow> Inl e
        | Inr l \<Rightarrow> (case np_zeros (stop l) of
              Inl e \<Rightarrow> Inl e
            | Inr array \<Rightarrow> Inr (foldl set_slice_True array ys)))"

text \<open>The default name \<open>StateVector.__init__\<close> builds when \<open>name\<close> is \<open>None\<close>.\<close>

definition join_err :: "(error + string) list \<Rightarrow> error + string" where
  "join_err parts = foldl (\<lambda>acc p. case acc of Inl e \<Rightarrow> Inl e
       | Inr s \<Rightarrow> (case p of Inl e \<Rightarrow> Inl e | Inr t \<Rightarrow> Inr (s @ t))) (Inr []) parts"

definition default_name :: "pyslice list \<Rightarrow> error + string" where
  "default_name ys =
     (case first_item ys of
        Inl e \<Rightarrow> Inl e
      | Inr s0 \<Rightarrow>
         (case (if start s0 = None
                then join_err [Inr ''y[:'', format_d (stop (last ys)), Inr '']'']
                else join_err [Inr ''y['', format_d (start s0), Inr '':'', format_d (stop s0)]) of
            Inl e \<Rightarrow> Inl e
          | Inr nm \<Rightarrow>
             if length ys > 1 then
               (case join_err [Inr nm, Inr '','', format_d (start (ys ! 1)), Inr '':'',
                               format_d (stop (ys ! 1))] of
                  Inl e \<Rightarrow> Inl e
                | Inr nm1 \<Rightarrow>
                   if length ys > 2 then
                     join_err [Inr nm1, Inr '',...,'', format_d (start (last ys)), Inr '':'',
                               format_d (stop (last ys)), Inr '']'']
                   else Inr (nm1 @ '']''))
             else Inr (nm @ '']'')))"

text \<open>The constructor's first loop: the first argument that is no slice raises TypeError.\<close>

fun check_slices :: "arg list \<Rightarrow> error + unit" where
  "check_slices [] = Inr ()"
| "check_slices (a # as) = (if \<not> is_slice a then Inl TypeError else check_slices as)"

text \<open>
  \<open>StateVector.__init__(*y_slices, name, domain, auxiliary_domains, evaluation_array)\<close>.
  The first argument is \<open>pybamm.settings.debug_mode\<close>.  The constructor of the base
  class, which is not among the sources, is taken to store the name, the domain and the
  auxiliary domains it is given.
\<close>

definition StateVector ::
  "bool \<Rightarrow> arg list \<Rightarrow> string option \<Rightarrow> string list option \<Rightarrow>
   (string \<times> string list) list option \<Rightarrow> bool list option \<Rightarrow> error + state_vector" where
  "StateVector debug_mode args name_arg domain_arg aux_arg evaluation_array_arg =
     (case check_slices args of
        Inl e \<Rightarrow> Inl e
      | Inr _ \<Rightarrow>
        let ys = map the_slice args in
        case (case name_arg of None \<Rightarrow> default_name ys | Some n \<Rightarrow> Inr n) of
          Inl e \<Rightarrow> Inl e
        | Inr nm \<Rightarrow>
           (case first_item ys of
              Inl e \<Rightarrow> Inl e
            | Inr s0 \<Rightarrow>
               (case set_evaluation_array debug_mode ys evaluation_array_arg of
                  Inl e \<Rightarrow> Inl e
                | Inr ea \<Rightarrow>
                    Inr \<lparr> name = nm,
                          domain = (case domain_arg of None \<Rightarrow> [] | Some d \<Rightarrow> d),
                          auxiliary_domains = (case aux_arg of None \<Rightarrow> [] | Some a \<Rightarrow> a),
                          y_slices = ys,
                          first_point = start s0,
                          last_point = stop (last ys),
                          evaluation_array = ea \<rparr>)))"

text \<open>
  The tuple \<open>(self.__class__, self.name, tuple(self.evaluation_array)) + tuple(self.domain)\<close>
  that \<open>StateVector.set_id\<close> hashes.
\<close>

datatype id_item = ClassItem string | StrItem string | TupleItem "bool list"

definition id_key :: "state_vector \<Rightarrow> id_item list" where
  "id_key self =
     [ClassItem ''StateVector'', StrItem (name self), TupleItem (evaluation_array self)]
     @ map StrItem (domain self)"

text \<open>
  \<open>StateVector.set_id\<close>: the node identity is the hash of that tuple.  The first
  argument is Python's \<open>hash\<close> on such tuples; its values are of a type \<open>'h\<close>, for
  Python an integer of fixed width.
\<close>

definition set_id :: "(id_item list \<Rightarrow> 'h) \<Rightarrow> state_vector \<Rightarrow> 'h" where
  "set_id hash self = hash (id_key self)"

subsection \<open>Evaluation\<close>

text \<open>
  The external vector \<open>y\<close> is a one-dimensional array, or a two-dimensional one kept
  as the list of its rows.  \<open>y.shape[0]\<close> is the number of entries or of rows.
\<close>

datatype 'a ndarray = Array1 "'a list" | Array2 "'a list list"

fun shape0 :: "'a ndarray \<Rightarrow> nat" where
  "shape0 (Array1 xs) = length xs"
| "shape0 (Array2 rs) = length rs"

text \<open>\<open>xs[mask]\<close> with a boolean mask as long as \<open>xs\<close>.\<close>

definition bool_index :: "'a list \<Rightarrow> bool list \<Rightarrow> 'a list" where
  "bool_index xs m = map fst (filter snd (zip xs m))"

text \<open>
  \<open>StateVector._base_evaluate(t, y)\<close>; the time is not read.  The result is a
  two-dimensional array: a one-dimensional selection gets a new axis and becomes a column.
\<close>

definition base_evaluate :: "state_vector \<Rightarrow> 'a ndarray option \<Rightarrow> error + 'a list list" where
  "base_evaluate self y =
     (case y of
        None \<Rightarrow> Inl TypeError
      | Some arr \<Rightarrow>
          if shape0 arr < length (evaluation_array self) then Inl ValueError
          else (case arr of
              Array1 xs \<Rightarrow>
                Inr (map (\<lambda>v. [v])
                      (bool_index (take (length (evaluation_array self)) xs)
                         (evaluation_array self)))
            | Array2 rs \<Rightarrow>
                Inr (bool_index (take (length (evaluation_array self)) rs)
                       (evaluation_array self))))"

subsection \<open>Jacobian\<close>

text \<open>A sparse matrix, kept dense: its number of columns and the list of its rows.\<close>

datatype matrix = Matrix (ncols: nat) (rows: "int list list")

text \<open>
  \<open>np.arange(a, b)\<close> on integers.  A stop of \<open>None\<close> makes the first argument the
  stop and 0 the start; a start of \<open>None\<close> is no number and raises TypeError.
\<close>

definition np_arange :: "int option \<Rightarrow> int option \<Rightarrow> error + int list" where
  "np_arange a b = (case a of None \<Rightarrow> Inl TypeError | Some lo \<Rightarrow>
       (case b of None \<Rightarrow> Inr [0..lo - 1] | Some hi \<Rightarrow> Inr [lo..hi - 1]))"

text \<open>\<open>np.intersect1d\<close>: the sorted values that occur in both arrays, each once.\<close>

definition intersect1d :: "int list \<Rightarrow> int list \<Rightarrow> int list" where
  "intersect1d xs ys = sort (remdups (filter (\<lambda>x. x \<in> set ys) xs))"

text \<open>\<open>csr_matrix((r, c))\<close>: the zero matrix of that shape.\<close>

definition csr_zeros :: "nat \<Rightarrow> nat \<Rightarrow> matrix" where
  "csr_zeros r c = Matrix c (replicate r (replicate c 0))"

text \<open>
  \<open>csr_matrix((data, (row, col)), shape=(r, c))\<close> with \<open>data\<close> all ones: the entry
  at \<open>(i, j)\<close> is the number of times the pair occurs among the coordinates.  A
  coordinate that is negative or not below the shape raises ValueError.
\<close>

definition csr_ones :: "int list \<Rightarrow> int list \<Rightarrow> nat \<Rightarrow> nat \<Rightarrow> error + matrix" where
  "csr_ones row col r c =
     (if list_all (\<lambda>i. 0 \<le> i \<and> i < int r) row \<and> list_all (\<lambda>j. 0 \<le> j \<and> j < int c) col
      then Inr (Matrix c
             (map (\<lambda>i. map (\<lambda>j. int (count_list (zip row col) (int i, int j))) [0..<c])
                  [0..<r]))
      else Inl ValueError)"

text \<open>\<open>vstack([a, b])\<close> of two matrices with the same number of columns.\<close>

definition vstack :: "matrix \<Rightarrow> matrix \<Rightarrow> error + matrix" where
  "vstack a b = (if ncols a = ncols b then Inr (Matrix (ncols a) (rows a @ rows b))
                 else Inl ValueError)"

text \<open>The loop of \<open>StateVector.jac\<close> over \<open>self.y_slices\<close>, with the matrix built so far.\<close>

fun jac_loop :: "int \<Rightarrow> int list \<Rightarrow> matrix \<Rightarrow> pyslice list \<Rightarrow> error + matrix" where
  "jac_loop variable_first variable_y_indices jac [] = Inr jac"
| "jac_loop variable_first variable_y_indices jac (y_slice # rest) =
     (case np_arange (start y_slice) (stop y_slice) of
        Inl e \<Rightarrow> Inl e
      | Inr slice_idx \<Rightarrow>
          if length (intersect1d slice_idx variable_y_indices) = 0
          then jac_loop variable_first variable_y_indices
                 (csr_zeros (length slice_idx) (length variable_y_indices)) rest
          else
            (case csr_ones
                    (map (\<lambda>k. k - the (start y_slice))
                         (intersect1d slice_idx variable_y_indices))
                    (map (\<lambda>k. k - variable_first)
                         (intersect1d slice_idx variable_y_indices))
                    (length slice_idx) (length variable_y_indices) of
               Inl e \<Rightarrow> Inl e
             | Inr block \<Rightarrow>
                (case vstack jac block of
                   Inl e \<Rightarrow> Inl e
                 | Inr jac' \<Rightarrow> jac_loop variable_first variable_y_indices jac' rest)))"

text \<open>\<open>StateVector.jac(variable)\<close>; the result is the matrix the Matrix node holds.\<close>

definition jac :: "state_vector \<Rightarrow> state_vector \<Rightarrow> error + matrix" where
  "jac self variable =
     (if length (y_slices variable) > 1 then Inl NotImplementedError
      else case np_arange (first_point variable) (last_point variable) of
          Inl e \<Rightarrow> Inl e
        | Inr variable_y_indices \<Rightarrow>
            jac_loop (the (first_point variable)) variable_y_indices
              (csr_zeros 0 (length variable_y_indices)) (y_slices self))"

section \<open>Concatenations\<close>

text \<open>
  A child of a concatenation: a StateVector, or a node of any other class, of which only
  the fields of the base class are read.
\<close>

datatype child = StateVectorChild state_vector | SymbolChild symbol

fun child_domain :: "child \<Rightarrow> string list" where
  "child_domain (StateVectorChild s) = domain s"
| "child_domain (SymbolChild s) = domain s"

fun child_auxiliary_domains :: "child \<Rightarrow> (string \<times> string list) list" where
  "child_auxiliary_domains (StateVectorChild s) = auxiliary_domains s"
| "child_auxiliary_domains (SymbolChild s) = auxiliary_domains s"

text \<open>
  \<open>all([isinstance(child, pybamm.StateVector) for child in children])\<close>, together with
  the children read as StateVectors when it holds.
\<close>

fun all_StateVector :: "child list \<Rightarrow> state_vector list option" where
  "all_StateVector [] = Some []"
| "all_StateVector (StateVectorChild s # cs) = map_option (Cons s) (all_StateVector cs)"
| "all_StateVector (SymbolChild s # cs) = None"

subsection \<open>Merging the children's domains\<close>

text \<open>\<open>Concatenation.get_children_domains\<close>, with the domain gathered so far.\<close>

fun get_children_domains_loop :: "string list \<Rightarrow> child list \<Rightarrow> error + string list" where
  "get_children_domains_loop dmn [] = Inr dmn"
| "get_children_domains_loop dmn (c # cs) =
     (if set dmn \<inter> set (child_domain c) = {}
      then get_children_domains_loop (dmn @ child_domain c) cs
      else Inl DomainError)"

definition get_children_domains :: "child list \<Rightarrow> error + string list" where
  "get_children_domains cs = get_children_domains_loop [] cs"

text \<open>
  \<open>hasattr(aux_domains, level)\<close> asks whether the dict object has an attribute of that
  name: these are the attributes of a Python 3 dict.
\<close>

definition dict_attributes :: "string list" where
  "dict_attributes =
     [''__class__'', ''__class_getitem__'', ''__contains__'', ''__delattr__'', ''__delitem__'',
      ''__dir__'', ''__doc__'', ''__eq__'', ''__format__'', ''__ge__'', ''__getattribute__'',
      ''__getitem__'', ''__getstate__'', ''__gt__'', ''__hash__'', ''__init__'',
      ''__init_subclass__'', ''__ior__'', ''__iter__'', ''__le__'', ''__len__'', ''__lt__'',
      ''__ne__'', ''__new__'', ''__or__'', ''__reduce__'', ''__reduce_ex__'', ''__repr__'',
      ''__reversed__'', ''__ror__'', ''__setattr__'', ''__setitem__'', ''__sizeof__'',
      ''__str__'', ''__subclasshook__'', ''clear'', ''copy'', ''fromkeys'', ''get'', ''items'',
      ''keys'', ''pop'', ''popitem'', ''setdefault'', ''update'', ''values'']"

definition hasattr_dict :: "string \<Rightarrow> bool" where
  "hasattr_dict level = (level \<in> set dict_attributes)"

text \<open>\<open>d[k]\<close> on a dict kept as an association list: a missing key raises KeyError.\<close>

definition dict_get :: "('k \<times> 'v) list \<Rightarrow> 'k \<Rightarrow> error + 'v" where
  "dict_get d k = (case map_of d k of None \<Rightarrow> Inl KeyError | Some v \<Rightarrow> Inr v)"

text \<open>
  The body of the inner loop of \<open>Concatenation.get_children_auxiliary_domains\<close>, for one
  level of one child.  The three tests of the \<open>or\<close> are made in order, so the dict is
  read only when \<open>hasattr\<close> holds.
\<close>

definition aux_step ::
  "(string \<times> string list) list \<Rightarrow> string \<times> string list \<Rightarrow> error + (string \<times> string list) list" where
  "aux_step aux_domains kv =
     (case kv of (level, v) \<Rightarrow>
        if \<not> hasattr_dict level then Inr (AList.update level v aux_domains)
        else (case dict_get aux_domains level of
            Inl e \<Rightarrow> Inl e
          | Inr cur \<Rightarrow>
              if cur = [] \<or> v = cur then Inr (AList.update level v aux_domains)
              else Inl DomainError))"

fun aux_loop ::
  "(string \<times> string list) list \<Rightarrow> (string \<times> string list) list \<Rightarrow>
   error + (string \<times> string list) list" where
  "aux_loop aux_domains [] = Inr aux_domains"
| "aux_loop aux_domains (kv # kvs) =
     (case aux_step aux_domains kv of Inl e \<Rightarrow> Inl e | Inr a \<Rightarrow> aux_loop a kvs)"

definition get_children_auxiliary_domains ::
  "child list \<Rightarrow> error + (string \<times> string list) list" where
  "get_children_auxiliary_domains cs = aux_loop [] (concat (map child_auxiliary_domains cs))"

subsection \<open>The mesh\<close>

text \<open>
  What is read of the mesh: the canonical order of the domains, and for each domain the
  list of its submeshes, one per secondary index, each with its number of points.
\<close>

record base_mesh =
  domain_order :: "string list"
  submeshes :: "(string \<times> nat list) list"

text \<open>\<open>xs.index(x)\<close>: the first position of \<open>x\<close>, ValueError when it is absent.\<close>

fun list_index :: "'a list \<Rightarrow> 'a \<Rightarrow> error + nat" where
  "list_index [] x = Inl ValueError"
| "list_index (y # ys) x =
     (if y = x then Inr 0
      else case list_index ys x of Inl e \<Rightarrow> Inl e | Inr n \<Rightarrow> Inr (Suc n))"

text \<open>The dict comprehension \<open>{d: mesh.domain_order.index(d) for d in self.domain}\<close>.\<close>

fun domain_dict_loop ::
  "string list \<Rightarrow> (string \<times> nat) list \<Rightarrow> string list \<Rightarrow> error + (string \<times> nat) list" where
  "domain_dict_loop order acc [] = Inr acc"
| "domain_dict_loop order acc (d # ds) =
     (case list_index order d of
        Inl e \<Rightarrow> Inl e
      | Inr i \<Rightarrow> domain_dict_loop order (AList.update d i acc) ds)"

text \<open>\<open>sorted(domain_dict, key=domain_dict.__getitem__)\<close>: the keys, by their index.\<close>

definition sorted_domain :: "base_mesh \<Rightarrow> string list \<Rightarrow> error + string list" where
  "sorted_domain m dmn =
     (case domain_dict_loop (domain_order m) [] dmn of
        Inl e \<Rightarrow> Inl e
      | Inr domain_dict \<Rightarrow> Inr (map fst (sort_key snd domain_dict)))"

subsection \<open>Slices of a DomainConcatenation\<close>

definition mk_slice :: "nat \<Rightarrow> nat \<Rightarrow> pyslice" where
  "mk_slice a b = Slice (Some (int a)) (Some (int b))"

text \<open>\<open>slices[dom].append(s)\<close> on a \<open>defaultdict(list)\<close>.\<close>

definition append_slice ::
  "(string \<times> pyslice list) list \<Rightarrow> string \<Rightarrow> pyslice \<Rightarrow> (string \<times> pyslice list) list" where
  "append_slice slices dmn s =
     AList.update dmn ((case map_of slices dmn of None \<Rightarrow> [] | Some l \<Rightarrow> l) @ [s]) slices"

text \<open>
  The two nested loops of \<open>DomainConcatenation.create_slices\<close>, over the pairs
  \<open>(i, dom)\<close> in the order the loops visit them, with the dict and the two cursors.
\<close>

fun create_slices_loop ::
  "base_mesh \<Rightarrow> (string \<times> pyslice list) list \<Rightarrow> nat \<Rightarrow> nat \<Rightarrow> (nat \<times> string) list \<Rightarrow>
   error + (string \<times> pyslice list) list" where
  "create_slices_loop m slices start_pos end_pos [] = Inr slices"
| "create_slices_loop m slices start_pos end_pos ((i, dmn) # rest) =
     (case dict_get (submeshes m) dmn of
        Inl e \<Rightarrow> Inl e
      | Inr subs \<Rightarrow>
         (case item subs i of
            Inl e \<Rightarrow> Inl e
          | Inr npts \<Rightarrow>
              create_slices_loop m
                (append_slice slices dmn (mk_slice start_pos (end_pos + npts)))
                (end_pos + npts) (end_pos + npts) rest))"

text \<open>
  \<open>DomainConcatenation.create_slices(node)\<close>: of \<open>self\<close> the mesh and
  \<open>secondary_dimensions_npts\<close> are read, of \<open>node\<close> its domain.
\<close>

definition create_slices ::
  "base_mesh \<Rightarrow> nat \<Rightarrow> string list \<Rightarrow> error + (string \<times> pyslice list) list" where
  "create_slices m sec_npts node_domain =
     (case first_item node_domain of
        Inl e \<Rightarrow> Inl e
      | Inr d0 \<Rightarrow>
         (case dict_get (submeshes m) d0 of
            Inl e \<Rightarrow> Inl e
          | Inr subs \<Rightarrow>
              if length subs \<noteq> sec_npts then Inl ValueError
              else create_slices_loop m [] 0 0 (List.product [0..<length subs] node_domain)))"

subsection \<open>DomainConcatenation\<close>

record domain_concatenation = symbol +
  children :: "child list"
  mesh :: base_mesh
  slices :: "(string \<times> pyslice list) list"
  size_attr :: "int option"
  children_slices :: "(string \<times> pyslice list) list list"
  secondary_dimensions_npts :: nat

text \<open>A list comprehension whose body may raise: the first failure ends it.\<close>

fun sequence_err :: "(error + 'a) list \<Rightarrow> error + 'a list" where
  "sequence_err [] = Inr []"
| "sequence_err (x # xs) =
     (case x of
        Inl e \<Rightarrow> Inl e
      | Inr v \<Rightarrow> (case sequence_err xs of Inl e \<Rightarrow> Inl e | Inr vs \<Rightarrow> Inr (v # vs)))"

text \<open>\<open>d[k]\<close> on a \<open>defaultdict(list)\<close>: a missing key reads as the empty list.\<close>

definition defaultdict_get :: "('k \<times> 'v list) list \<Rightarrow> 'k \<Rightarrow> 'v list" where
  "defaultdict_get d k = (case map_of d k of None \<Rightarrow> [] | Some l \<Rightarrow> l)"

text \<open>
  \<open>DomainConcatenation.__init__(children, mesh, copy_this)\<close>.  The base class merges
  the domains and the auxiliary domains of the children; the name is fixed.
\<close>

definition DomainConcatenation ::
  "child list \<Rightarrow> base_mesh \<Rightarrow> domain_concatenation option \<Rightarrow> error + domain_concatenation" where
  "DomainConcatenation cs m copy_this =
     (case get_children_domains cs of
        Inl e \<Rightarrow> Inl e
      | Inr merged \<Rightarrow>
     (case get_children_auxiliary_domains cs of
        Inl e \<Rightarrow> Inl e
      | Inr aux \<Rightarrow>
     (case sorted_domain m merged of
        Inl e \<Rightarrow> Inl e
      | Inr dmn \<Rightarrow>
     (case copy_this of
        Some c \<Rightarrow>
          Inr \<lparr> name = ''domain concatenation'', domain = dmn, auxiliary_domains = aux,
                children = cs, mesh = mesh c, slices = slices c, size_attr = size_attr c,
                children_slices = children_slices c,
                secondary_dimensions_npts = secondary_dimensions_npts c \<rparr>
      | None \<Rightarrow>
          if dmn = [] then Inl DomainError
          else
     (case dict_get (submeshes m) (hd dmn) of
        Inl e \<Rightarrow> Inl e
      | Inr subs \<Rightarrow>
     (case create_slices m (length subs) dmn of
        Inl e \<Rightarrow> Inl e
      | Inr sl \<Rightarrow>
     (case last_item (defaultdict_get sl (last dmn)) of
        Inl e \<Rightarrow> Inl e
      | Inr final \<Rightarrow>
     (case sequence_err (map (\<lambda>c. create_slices m (length subs) (child_domain c)) cs) of
        Inl e \<Rightarrow> Inl e
      | Inr csl \<Rightarrow>
          Inr \<lparr> name = ''domain concatenation'', domain = dmn, auxiliary_domains = aux,
                children = cs, mesh = m, slices = sl, size_attr = stop final,
                children_slices = csl,
                secondary_dimensions_npts = length subs \<rparr>))))))))"

subsection \<open>Evaluating a DomainConcatenation\<close>

text \<open>
  \<open>np.empty((size, 1))\<close>: a column of \<open>size\<close> rows whose entries hold nothing yet
  (\<open>None\<close> here; numpy leaves them arbitrary).
\<close>

definition np_empty :: "int option \<Rightarrow> error + 'a option list list" where
  "np_empty n = (case n of
       None \<Rightarrow> Inl TypeError
     | Some k \<Rightarrow> if k < 0 then Inl ValueError else Inr (replicate (nat k) [None]))"

text \<open>\<open>a[s]\<close> on an array: a slice of its entries, or of its rows.\<close>

fun array_get_slice :: "'a ndarray \<Rightarrow> pyslice \<Rightarrow> 'a ndarray" where
  "array_get_slice (Array1 xs) s = Array1 (get_slice xs s)"
| "array_get_slice (Array2 rs) s = Array2 (get_slice rs s)"

text \<open>
  The values a source array gives to \<open>n\<close> rows of one column, by numpy's broadcasting:
  a two-dimensional source needs rows of one entry, and \<open>n\<close> rows or one row; a
  one-dimensional source needs exactly one entry.  Anything else raises ValueError.
\<close>

fun broadcast_column :: "nat \<Rightarrow> 'a ndarray \<Rightarrow> error + 'a list" where
  "broadcast_column n (Array2 rs) =
     (if list_all (\<lambda>r. length r = 1) rs \<and> (length rs = n \<or> length rs = 1)
      then Inr (if length rs = n then map hd rs else replicate n (hd (hd rs)))
      else Inl ValueError)"
| "broadcast_column n (Array1 xs) =
     (if length xs = 1 then Inr (replicate n (hd xs)) else Inl ValueError)"

text \<open>\<open>vector[dst] = src\<close> on the column \<open>vector\<close>.\<close>

definition assign_slice ::
  "'a option list list \<Rightarrow> pyslice \<Rightarrow> 'a ndarray \<Rightarrow> error + 'a option list list" where
  "assign_slice vector dst src =
     (case slice_indices dst (length vector) of (lo, hi) \<Rightarrow>
        (case broadcast_column (hi - lo) src of
           Inl e \<Rightarrow> Inl e
         | Inr vals \<Rightarrow>
             Inr (take lo vector @ map (\<lambda>v. [Some v]) vals @ drop (lo + (hi - lo)) vector)))"

text \<open>The innermost loop of \<open>_concatenation_evaluate\<close>: \<open>enumerate(child_slice)\<close>.\<close>

fun write_domain ::
  "pyslice list \<Rightarrow> 'a ndarray \<Rightarrow> 'a option list list \<Rightarrow> (nat \<times> pyslice) list \<Rightarrow>
   error + 'a option list list" where
  "write_domain dsts child_vector vector [] = Inr vector"
| "write_domain dsts child_vector vector ((i, sl) # rest) =
     (case item dsts i of
        Inl e \<Rightarrow> Inl e
      | Inr dst \<Rightarrow>
         (case assign_slice vector dst (array_get_slice child_vector sl) of
            Inl e \<Rightarrow> Inl e
          | Inr vector' \<Rightarrow> write_domain dsts child_vector vector' rest))"

text \<open>The middle loop: \<open>slices.items()\<close> of one child.\<close>

fun write_child ::
  "(string \<times> pyslice list) list \<Rightarrow> 'a ndarray \<Rightarrow> 'a option list list \<Rightarrow>
   (string \<times> pyslice list) list \<Rightarrow> error + 'a option list list" where
  "write_child self_slices child_vector vector [] = Inr vector"
| "write_child self_slices child_vector vector ((child_dom, child_slice) # rest) =
     (case write_domain (defaultdict_get self_slices child_dom) child_vector vector
             (zip [0..<length child_slice] child_slice) of
        Inl e \<Rightarrow> Inl e
      | Inr vector' \<Rightarrow> write_child self_slices child_vector vector' rest)"

text \<open>The outer loop: \<open>zip(children_eval, self._children_slices)\<close>.\<close>

fun write_children ::
  "(string \<times> pyslice list) list \<Rightarrow> 'a option list list \<Rightarrow>
   ('a ndarray \<times> (string \<times> pyslice list) list) list \<Rightarrow> error + 'a option list list" where
  "write_children self_slices vector [] = Inr vector"
| "write_children self_slices vector ((child_vector, sl) # rest) =
     (case write_child self_slices child_vector vector sl of
        Inl e \<Rightarrow> Inl e
      | Inr vector' \<Rightarrow> write_children self_slices vector' rest)"

text \<open>\<open>DomainConcatenation._concatenation_evaluate(children_eval)\<close>.\<close>

definition concatenation_evaluate ::
  "domain_concatenation \<Rightarrow> 'a ndarray list \<Rightarrow> error + 'a option list list" where
  "concatenation_evaluate self children_eval =
     (case np_empty (size_attr self) of
        Inl e \<Rightarrow> Inl e
      | Inr vector \<Rightarrow>
          write_children (slices self) vector (zip children_eval (children_slices self)))"

text \<open>
  Modelled from the spec: \<open>Symbol.evaluate(t, y)\<close> of the base class is not among the
  sources; by the generic dispatch a StateVector, a leaf, gives its \<open>_base_evaluate\<close>.
  What a node of another class gives is the parameter \<open>eval_other\<close>.
\<close>

fun child_evaluate ::
  "(symbol \<Rightarrow> error + 'a ndarray) \<Rightarrow> 'a ndarray option \<Rightarrow> child \<Rightarrow> error + 'a ndarray" where
  "child_evaluate eval_other y (StateVectorChild s) =
     (case base_evaluate s y of Inl e \<Rightarrow> Inl e | Inr rs \<Rightarrow> Inr (Array2 rs))"
| "child_evaluate eval_other y (SymbolChild s) = eval_other s"

text \<open>\<open>Concatenation.evaluate(t, y)\<close> without memoization, on a DomainConcatenation.\<close>

definition evaluate ::
  "domain_concatenation \<Rightarrow> (symbol \<Rightarrow> error + 'a ndarray) \<Rightarrow> 'a ndarray option \<Rightarrow>
   error + 'a option list list" where
  "evaluate self eval_other y =
     (case sequence_err (map (child_evaluate eval_other y) (children self)) of
        Inl e \<Rightarrow> Inl e
      | Inr children_eval \<Rightarrow> concatenation_evaluate self children_eval)"

subsection \<open>Simplifying a DomainConcatenation\<close>

text \<open>What \<open>_concatenation_simplify\<close> returns: a StateVector or a DomainConcatenation.\<close>

datatype simplified = SimplifiedStateVector state_vector | SimplifiedConcatenation domain_concatenation

text \<open>\<open>np.zeros(k)\<close> as numbers; a negative length raises ValueError.\<close>

definition np_zeros_num :: "int \<Rightarrow> error + int list" where
  "np_zeros_num k = (if k < 0 then Inl ValueError else Inr (replicate (nat k) 0))"

text \<open>
  \<open>np.concatenate([child.evaluation_array, np.zeros(longest - len(child.evaluation_array))])\<close>:
  the mask as numbers, padded with zeros.
\<close>

definition padded_array :: "nat \<Rightarrow> bool list \<Rightarrow> error + int list" where
  "padded_array longest ea =
     (case np_zeros_num (int longest - int (length ea)) of
        Inl e \<Rightarrow> Inl e
      | Inr z \<Rightarrow> Inr (map (\<lambda>b. if b then 1 else 0) ea @ z))"

text \<open>
  Modelled from the spec: the equality and the hash of the base class \<open>pybamm.Symbol\<close>,
  which key the dict \<open>eval_arrays\<close>, are not among the sources.  As the specification
  words it, the mask of each child is padded and the masks of all children are summed: the
  children are distinct keys, and the dict holds one array per child.  This is the loop
  that fills it, with the arrays in child order.
\<close>

fun eval_arrays_loop :: "nat \<Rightarrow> int list list \<Rightarrow> state_vector list \<Rightarrow> error + int list list" where
  "eval_arrays_loop longest eval_arrays [] = Inr eval_arrays"
| "eval_arrays_loop longest eval_arrays (c # cs) =
     (case padded_array longest (evaluation_array c) of
        Inl e \<Rightarrow> Inl e
      | Inr a \<Rightarrow> eval_arrays_loop longest (eval_arrays @ [a]) cs)"

text \<open>
  \<open>sum(array for array in eval_arrays.values())\<close>: the elementwise sum; every array has
  the length \<open>longest\<close>, and the sum starts from zero.
\<close>

definition sum_arrays :: "nat \<Rightarrow> int list list \<Rightarrow> int list" where
  "sum_arrays longest arrays = foldl (\<lambda>acc a. map2 (+) acc a) (replicate longest 0) arrays"

text \<open>The end of \<open>_concatenation_simplify\<close>: the copy with its domain cleared.\<close>

definition simplify_copy :: "domain_concatenation \<Rightarrow> child list \<Rightarrow> error + simplified" where
  "simplify_copy self cs =
     (case DomainConcatenation cs (mesh self) (Some self) of
        Inl e \<Rightarrow> Inl e
      | Inr new_symbol \<Rightarrow> Inr (SimplifiedConcatenation (new_symbol\<lparr>domain := []\<rparr>)))"

text \<open>
  \<open>DomainConcatenation._concatenation_simplify(children)\<close>.  The first argument is
  \<open>pybamm.settings.debug_mode\<close>, which the StateVector constructor reads.
\<close>

definition concatenation_simplify ::
  "bool \<Rightarrow> domain_concatenation \<Rightarrow> child list \<Rightarrow> error + simplified" where
  "concatenation_simplify debug_mode self cs =
     (case all_StateVector cs of
        None \<Rightarrow> simplify_copy self cs
      | Some svs \<Rightarrow>
         (case last_item svs of
            Inl e \<Rightarrow> Inl e
          | Inr final \<Rightarrow>
         (case eval_arrays_loop (length (evaluation_array final)) [] svs of
            Inl e \<Rightarrow> Inl e
          | Inr eval_arrays \<Rightarrow>
              if list_all (\<lambda>v. v = 1)
                   (sum_arrays (length (evaluation_array final)) eval_arrays)
              then
                (case first_item (y_slices (hd svs)) of
                   Inl e \<Rightarrow> Inl e
                 | Inr s0 \<Rightarrow>
                (case last_item (y_slices final) of
                   Inl e \<Rightarrow> Inl e
                 | Inr s1 \<Rightarrow>
                (case StateVector debug_mode [SliceArg (Slice (start s0) (stop s1))]
                        None None None None of
                   Inl e \<Rightarrow> Inl e
                 | Inr sv \<Rightarrow> Inr (SimplifiedStateVector sv))))
              else simplify_copy self cs)))"

section \<open>The specification's wording, and concrete inputs\<close>

text \<open>
  Evaluation as the specification words it for slices supplied out of index order: the
  values of each slice, in the order the slices were supplied, as a column.
\<close>

definition evaluate_in_slice_order :: "pyslice list \<Rightarrow> 'a list \<Rightarrow> 'a list list" where
  "evaluate_in_slice_order ys y = map (\<lambda>v. [v]) (concat (map (get_slice y) ys))"

text \<open>
  The Jacobian as the specification words it: for each slice of the node, in order, a
  block with one row per index of the slice and one column per index of the variable's
  slice, holding 1 where the row and the column stand for the same global index and 0
  elsewhere; the blocks are stacked vertically.
\<close>

definition jac_spec :: "state_vector \<Rightarrow> state_vector \<Rightarrow> matrix" where
  "jac_spec self variable =
     (let c = the (first_point variable); d = the (last_point variable) in
      Matrix (nat (d - c))
        (concat (map (\<lambda>y_slice.
            map (\<lambda>i. map (\<lambda>j. if the (start y_slice) + int i = c + int j then 1 else 0)
                          [0..<nat (d - c)])
                [0..<nat (the (stop y_slice) - the (start y_slice))])
          (y_slices self))))"

text \<open>The nodes \<open>StateVector(slice(0, 3))\<close>, \<open>StateVector(slice(0, 2), slice(5, 7))\<close> and
  \<open>StateVector(slice(0, 2))\<close>.\<close>

definition sv_0_3 :: state_vector where
  "sv_0_3 = \<lparr> name = ''y[0:3]'', domain = [], auxiliary_domains = [],
      y_slices = [Slice (Some 0) (Some 3)], first_point = Some 0, last_point = Some 3,
      evaluation_array = [True, True, True] \<rparr>"

definition sv_0_2_5_7 :: state_vector where
  "sv_0_2_5_7 = \<lparr> name = ''y[0:2,5:7]'', domain = [], auxiliary_domains = [],
      y_slices = [Slice (Some 0) (Some 2), Slice (Some 5) (Some 7)],
      first_point = Some 0, last_point = Some 7,
      evaluation_array = [True, True, False, False, False, True, True] \<rparr>"

definition sv_0_2 :: state_vector where
  "sv_0_2 = \<lparr> name = ''y[0:2]'', domain = [], auxiliary_domains = [],
      y_slices = [Slice (Some 0) (Some 2)], first_point = Some 0, last_point = Some 2,
      evaluation_array = [True, True] \<rparr>"

text \<open>A child of some other class whose only auxiliary domain is at the level
  \<open>secondary\<close>.\<close>

definition child_secondary :: "string \<Rightarrow> string list \<Rightarrow> string list \<Rightarrow> child" where
  "child_secondary n d v =
     SymbolChild \<lparr> name = n, domain = d, auxiliary_domains = [(''secondary'', v)] \<rparr>"

text \<open>
  \<open>mesh[dom][i].npts\<close> for a pair \<open>(i, dom)\<close>, as a number: the points the mesh has for the
  domain at that secondary index (0 where the mesh has no such entry, which is where
  \<open>create_slices\<close> raises).
\<close>

definition npts_of :: "base_mesh \<Rightarrow> nat \<times> string \<Rightarrow> nat" where
  "npts_of m p = (case map_of (submeshes m) (snd p) of
       None \<Rightarrow> 0
     | Some subs \<Rightarrow> if fst p < length subs then subs ! fst p else 0)"

text \<open>Consecutive slices of the given lengths, from a starting position.\<close>

fun chain :: "nat \<Rightarrow> nat list \<Rightarrow> pyslice list" where
  "chain c [] = []"
| "chain c (n # ns) = mk_slice c (c + n) # chain (c + n) ns"

text \<open>
  The slices of a DomainConcatenation in the order \<open>create_slices\<close> appends them: for
  each secondary index, for each domain, the slice of that domain at that index.
\<close>

definition created_slices :: "domain_concatenation \<Rightarrow> pyslice list" where
  "created_slices dc =
     map (\<lambda>(i, d). defaultdict_get (slices dc) d ! i)
       (List.product [0..<secondary_dimensions_npts dc] (domain dc))"

text \<open>A mesh over the domains \<open>A\<close> and \<open>B\<close>, in that order, with the given numbers of
  points per secondary index, and a child on one domain.\<close>

definition mesh_AB :: "nat list \<Rightarrow> nat list \<Rightarrow> base_mesh" where
  "mesh_AB a b = \<lparr> domain_order = [''A'', ''B''], submeshes = [(''A'', a), (''B'', b)] \<rparr>"

text \<open>The same with the canonical order \<open>B\<close>, \<open>A\<close>.\<close>

definition mesh_BA :: "nat list \<Rightarrow> nat list \<Rightarrow> base_mesh" where
  "mesh_BA b a = \<lparr> domain_order = [''B'', ''A''], submeshes = [(''A'', a), (''B'', b)] \<rparr>"

definition child_on :: "string \<Rightarrow> child" where
  "child_on d = SymbolChild \<lparr> name = d, domain = [d], auxiliary_domains = [] \<rparr>"

text \<open>A slice ends where, or before, another starts.\<close>

definition precedes :: "pyslice \<Rightarrow> pyslice \<Rightarrow> bool" where
  "precedes s t = (case (stop s, start t) of (Some b, Some a) \<Rightarrow> b \<le> a | _ \<Rightarrow> False)"

text \<open>A StateVector node with the given name, domain, slices and evaluation mask.\<close>

definition sv_on :: "string \<Rightarrow> string list \<Rightarrow> pyslice list \<Rightarrow> bool list \<Rightarrow> state_vector" where
  "sv_on n d ys ea =
     \<lparr> name = n, domain = d, auxiliary_domains = [], y_slices = ys,
       first_point = start (hd ys), last_point = stop (last ys), evaluation_array = ea \<rparr>"

text \<open>
  Children for a DomainConcatenation over the domains \<open>A\<close> and \<open>B\<close>: two that read
  alternate positions, two whose slices overlap with the longer mask first, two that are
  contiguous, and two with a gap between them.
\<close>

definition interleaved_children :: "child list" where
  "interleaved_children =
     [StateVectorChild
        (sv_on ''y[0:1,2:3]'' [''A''] [Slice (Some 0) (Some 1), Slice (Some 2) (Some 3)]
           [True, False, True]),
      StateVectorChild
        (sv_on ''y[1:2,3:4]'' [''B''] [Slice (Some 1) (Some 2), Slice (Some 3) (Some 4)]
           [False, True, False, True])]"

definition overlapping_children :: "child list" where
  "overlapping_children =
     [StateVectorChild (sv_on ''y[0:3]'' [''A''] [Slice (Some 0) (Some 3)] [True, True, True]),
      StateVectorChild (sv_on ''y[0:2]'' [''B''] [Slice (Some 0) (Some 2)] [True, True])]"

definition contiguous_children :: "child list" where
  "contiguous_children =
     [StateVectorChild (sv_on ''y[0:2]'' [''A''] [Slice (Some 0) (Some 2)] [True, True]),
      StateVectorChild (sv_on ''y[2:4]'' [''B''] [Slice (Some 2) (Some 4)]
         [False, False, True, True])]"

definition gapped_children :: "child list" where
  "gapped_children =
     [StateVectorChild (sv_on ''y[0:2]'' [''A''] [Slice (Some 0) (Some 2)] [True, True]),
      StateVectorChild (sv_on ''y[3:5]'' [''B''] [Slice (Some 3) (Some 5)]
         [False, False, False, True, True])]"

text \<open>The node \<open>StateVector(slice(0, 4))\<close>.\<close>

definition sv_0_4 :: state_vector where
  "sv_0_4 = sv_on ''y[0:4]'' [] [Slice (Some 0) (Some 4)] [True, True, True, True]"

text \<open>Constructing a DomainConcatenation from a mesh and simplifying it over its children.\<close>

definition simplify_constructed :: "child list \<Rightarrow> base_mesh \<Rightarrow> error + simplified" where
  "simplify_constructed cs m =
     (case DomainConcatenation cs m None of
        Inl e \<Rightarrow> Inl e
      | Inr dc \<Rightarrow> concatenation_simplify False dc cs)"

text \<open>Constructing a DomainConcatenation from a mesh and evaluating it; every child is a
  StateVector, so no other node is evaluated.\<close>

definition evaluate_constructed ::
  "child list \<Rightarrow> base_mesh \<Rightarrow> 'a ndarray option \<Rightarrow> error + 'a option list list" where
  "evaluate_constructed cs m y =
     (case DomainConcatenation cs m None of
        Inl e \<Rightarrow> Inl e
      | Inr dc \<Rightarrow> evaluate dc (\<lambda>s. Inl TypeError) y)"

text \<open>The domain of what simplify returned, and whether it is a single StateVector.\<close>

fun simplified_domain :: "simplified \<Rightarrow> string list" where
  "simplified_domain (SimplifiedStateVector s) = domain s"
| "simplified_domain (SimplifiedConcatenation c) = domain c"

fun is_collapsed :: "simplified \<Rightarrow> bool" where
  "is_collapsed (SimplifiedStateVector s) = True"
| "is_collapsed (SimplifiedConcatenation c) = False"

text \<open>
  The node \<open>StateVector(slice(0, k), name="u")\<close>: its mask is \<open>k\<close> times True.
\<close>

definition sv_upto :: "nat \<Rightarrow> state_vector" where
  "sv_upto k =
     \<lparr> name = ''u'', domain = [], auxiliary_domains = [],
       y_slices = [Slice (Some 0) (Some (int k))],
       first_point = Some 0, last_point = Some (int k),
       evaluation_array = replicate k True \<rparr>"

text \<open>
  What the children of another class evaluate to in an example: the node named \<open>A\<close> to
  the column \<open>[1, 2]\<close>, any other to the column \<open>[3, 4, 5]\<close>.
\<close>

definition eval_by_name :: "symbol \<Rightarrow> error + int ndarray" where
  "eval_by_name s =
     (if name s = ''A'' then Inr (Array2 [[1], [2]]) else Inr (Array2 [[3], [4], [5]]))"

section \<open>Construction of a StateVector\<close>

lemma check_slices_non_slice:
  "list_ex (\<lambda>a. \<not> is_slice a) args \<Longrightarrow> check_slices args = Inl TypeError"
  by (induction args) auto

lemma check_slices_all_slices: "check_slices (map SliceArg ss) = Inr ()"
  by (induction ss) auto

lemma the_slice_SliceArg: "map the_slice (map SliceArg ss) = ss"
  by (induction ss) auto

lemma default_name_ok:
  assumes "ss \<noteq> []" "list_all (\<lambda>s. start s \<noteq> None \<and> stop s \<noteq> None) ss"
  shows "\<exists>n. default_name ss = Inr n"
proof -
  obtain s0 rest where ss: "ss = s0 # rest" using assms(1) by (cases ss) auto
  have all: "\<And>s. s \<in> set ss \<Longrightarrow> \<exists>a b. start s = Some a \<and> stop s = Some b"
    using assms(2) by (auto simp: list_all_iff)
  have l: "last ss \<in> set ss" using assms(1) by simp
  obtain a0 b0 where s0: "start s0 = Some a0" "stop s0 = Some b0"
    using all[of s0] ss by auto
  obtain al bl where sl: "start (last ss) = Some al" "stop (last ss) = Some bl"
    using all[OF l] by auto
  show ?thesis
  proof (cases "length ss > 1")
    case False
    then show ?thesis using s0 ss
      by (simp add: default_name_def first_item_def join_err_def format_d_def)
  next
    case True
    then have "ss ! 1 \<in> set ss" by simp
    then obtain a1 b1 where s1: "start (ss ! 1) = Some a1" "stop (ss ! 1) = Some b1"
      using all by blast
    show ?thesis using s0 sl s1 True ss
      by (simp add: default_name_def first_item_def join_err_def format_d_def)
  qed
qed

text \<open>
  Claim C9, as the code has it: the constructor raises TypeError (InvalidArgumentError)
  whenever one of its arguments is not a slice object, and that is its only check of the
  arguments.  The bounds are not compared: given at least one slice, integer bounds and a
  last stop that is not negative, the StateVector is built with exactly the slices
  supplied, whether or not each start is at most its stop or is non-negative.
\<close>

theorem StateVector_checks_type_only:
  "(list_ex (\<lambda>a. \<not> is_slice a) args \<longrightarrow>
      StateVector debug_mode args nm dm aux ea = Inl TypeError) \<and>
   (ss \<noteq> [] \<and> list_all (\<lambda>s. start s \<noteq> None \<and> stop s \<noteq> None) ss \<and>
    0 \<le> the (stop (last ss)) \<longrightarrow>
      (\<exists>sv. StateVector debug_mode (map SliceArg ss) nm dm aux ea = Inr sv \<and> y_slices sv = ss))"
proof (intro conjI impI)
  assume "list_ex (\<lambda>a. \<not> is_slice a) args"
  then show "StateVector debug_mode args nm dm aux ea = Inl TypeError"
    by (simp add: StateVector_def check_slices_non_slice)
next
  assume h: "ss \<noteq> [] \<and> list_all (\<lambda>s. start s \<noteq> None \<and> stop s \<noteq> None) ss \<and>
    0 \<le> the (stop (last ss))"
  then obtain n where n: "default_name ss = Inr n" using default_name_ok by blast
  obtain s0 rest where ss: "ss = s0 # rest" using h by (cases ss) auto
  have "last ss \<in> set ss" using h by simp
  moreover have "\<forall>s \<in> set ss. stop s \<noteq> None" using h by (simp add: list_all_iff)
  ultimately have "stop (last ss) \<noteq> None" by blast
  then obtain bl where bl: "stop (last ss) = Some bl" by auto
  then have "0 \<le> bl" using h by simp
  then have "\<exists>m. set_evaluation_array debug_mode ss ea = Inr m"
    using bl h by (simp add: set_evaluation_array_def last_item_def np_zeros_def)
  then obtain m where m: "set_evaluation_array debug_mode ss ea = Inr m" by blast
  have f: "first_item ss = Inr s0" using ss by (simp add: first_item_def)
  show "\<exists>sv. StateVector debug_mode (map SliceArg ss) nm dm aux ea = Inr sv \<and> y_slices sv = ss"
    unfolding StateVector_def check_slices_all_slices the_slice_SliceArg Let_def
    by (cases nm) (simp_all add: n m f)
qed

text \<open>
  Claim C9, witness: a call with an argument that is no slice raises TypeError, and a
  call with the slices \<open>slice(-4, 1)\<close> and \<open>slice(5, 2)\<close> is accepted.
\<close>

theorem StateVector_checks_type_only_witness:
  "StateVector False [SliceArg (Slice (Some 0) (Some 3)), NonSlice] None None None None
     = Inl TypeError \<and>
   (\<exists>sv. StateVector False
            (map SliceArg [Slice (Some (-4)) (Some 1), Slice (Some 5) (Some 2)])
            None None None None = Inr sv
      \<and> y_slices sv = [Slice (Some (-4)) (Some 1), Slice (Some 5) (Some 2)])"
  using StateVector_checks_type_only
    [of "[SliceArg (Slice (Some 0) (Some 3)), NonSlice]" False None None None None
        "[Slice (Some (-4)) (Some 1), Slice (Some 5) (Some 2)]"]
  by simp

text \<open>
  Claim C9, as stated, fails: \<open>StateVector(slice(5, 2))\<close>, whose start exceeds its stop,
  raises nothing and yields a node holding that slice.
\<close>

theorem StateVector_malformed_slice_accepted:
  "StateVector False [SliceArg (Slice (Some 5) (Some 2))] None None None None =
     Inr \<lparr> name = ''y[5:2]'', domain = [], auxiliary_domains = [],
           y_slices = [Slice (Some 5) (Some 2)], first_point = Some 5, last_point = Some 2,
           evaluation_array = [False, False] \<rparr>"
  by code_simp

section \<open>Evaluation of a StateVector\<close>

lemma zip_as_indices:
  "length m = n \<Longrightarrow> n \<le> length xs \<Longrightarrow>
   zip (take n xs) m = map (\<lambda>i. (xs ! i, m ! i)) [0..<n]"
  by (simp add: list_eq_iff_nth_eq)

lemma bool_index_as_indices:
  assumes "length m \<le> length xs"
  shows "bool_index (take (length m) xs) m =
         map (\<lambda>i. xs ! i) (filter (\<lambda>i. m ! i) [0..<length m])"
proof -
  have "zip (take (length m) xs) m = map (\<lambda>i. (xs ! i, m ! i)) [0..<length m]"
    using assms by (rule zip_as_indices [OF refl])
  then show ?thesis
    by (simp add: bool_index_def filter_map comp_def)
qed

text \<open>
  Claim C6, as the code has it: \<open>evaluate(t, y)\<close> raises TypeError (InvalidArgumentError)
  when \<open>y\<close> is absent and ValueError (SizeMismatchError) when \<open>y\<close> has fewer entries than
  the evaluation mask; otherwise it returns, as a column, the entries of \<open>y\<close> at the
  masked positions in increasing index order, whatever the order of the slices.
\<close>

theorem base_evaluate_index_order:
  "base_evaluate self None = Inl TypeError \<and>
   (shape0 arr < length (evaluation_array self) \<longrightarrow>
      base_evaluate self (Some arr) = Inl ValueError) \<and>
   (length (evaluation_array self) \<le> length xs \<longrightarrow>
      base_evaluate self (Some (Array1 xs)) =
        Inr (map (\<lambda>i. [xs ! i])
               (filter (\<lambda>i. evaluation_array self ! i) [0..<length (evaluation_array self)]))) \<and>
   (length (evaluation_array self) \<le> length rs \<longrightarrow>
      base_evaluate self (Some (Array2 rs)) =
        Inr (map (\<lambda>i. rs ! i)
               (filter (\<lambda>i. evaluation_array self ! i) [0..<length (evaluation_array self)])))"
  by (simp add: base_evaluate_def bool_index_as_indices comp_def)

text \<open>
  Claim C6, witness: the StateVector over \<open>slice(0, 3)\<close> raises TypeError without \<open>y\<close>
  and ValueError on a vector of length 2, and on \<open>[10, 20, 30, 40]\<close> it returns
  \<open>[[10], [20], [30]]\<close>.
\<close>

theorem base_evaluate_index_order_witness:
  "StateVector False [SliceArg (Slice (Some 0) (Some 3))] None None None None = Inr sv_0_3 \<and>
   base_evaluate sv_0_3 (None :: int ndarray option) = Inl TypeError \<and>
   base_evaluate sv_0_3 (Some (Array1 [10, 20 :: int])) = Inl ValueError \<and>
   base_evaluate sv_0_3 (Some (Array1 [10, 20, 30, 40 :: int])) = Inr [[10], [20], [30]] \<and>
   base_evaluate sv_0_3 (Some (Array2 [[10], [20], [30], [40 :: int]])) = Inr [[10], [20], [30]]"
proof -
  have c: "StateVector False [SliceArg (Slice (Some 0) (Some 3))] None None None None
             = Inr sv_0_3"
    unfolding sv_0_3_def by code_simp
  have e: "evaluation_array sv_0_3 = [True, True, True]" by (simp add: sv_0_3_def)
  have u: "[0..<3] = [0, 1, 2]" by (simp add: upt_rec)
  show ?thesis
    using base_evaluate_index_order
      [of sv_0_3 "Array1 [10, 20 :: int]" "[10, 20, 30, 40 :: int]"
          "[[10], [20], [30], [40 :: int]]"] c
    by (simp add: e u)
qed

text \<open>
  Claim C6, as stated, fails for slices supplied out of index order: the StateVector over
  \<open>slice(2, 3), slice(0, 1), slice(4, 5)\<close> evaluates on \<open>[10, 20, 30, 40, 50]\<close> to
  \<open>[[10], [30], [50]]\<close>, while the order of the slices would give \<open>[[30], [10], [50]]\<close>.
\<close>

theorem base_evaluate_not_slice_order:
  "StateVector False [SliceArg (Slice (Some 2) (Some 3)), SliceArg (Slice (Some 0) (Some 1)),
                      SliceArg (Slice (Some 4) (Some 5))] (Some ''u'') None None None
     = Inr \<lparr> name = ''u'', domain = [], auxiliary_domains = [],
             y_slices = [Slice (Some 2) (Some 3), Slice (Some 0) (Some 1),
                         Slice (Some 4) (Some 5)],
             first_point = Some 2, last_point = Some 5,
             evaluation_array = [True, False, True, False, True] \<rparr> \<and>
   base_evaluate \<lparr> name = ''u'', domain = [], auxiliary_domains = [],
             y_slices = [Slice (Some 2) (Some 3), Slice (Some 0) (Some 1),
                         Slice (Some 4) (Some 5)],
             first_point = Some 2, last_point = Some 5,
             evaluation_array = [True, False, True, False, True] \<rparr>
        (Some (Array1 [10, 20, 30, 40, 50 :: int])) = Inr [[10], [30], [50]] \<and>
   evaluate_in_slice_order
       [Slice (Some 2) (Some 3), Slice (Some 0) (Some 1), Slice (Some 4) (Some 5)]
       [10, 20, 30, 40, 50 :: int] = [[30], [10], [50]]"
  by code_simp

section \<open>Identity of a StateVector\<close>

lemma set_slice_True_whole:
  "set_slice_True (replicate k False) (Slice (Some 0) (Some (int k))) = replicate k True"
proof -
  have "map (\<lambda>i. if 0 \<le> i \<and> i < k then True else replicate k False ! i) [0..<k]
        = map (\<lambda>i. True) [0..<k]"
    by (rule map_cong [OF refl]) simp
  then show ?thesis
    by (simp add: set_slice_True_def slice_indices_def clip_bound_def map_replicate_const)
qed

lemma sv_upto_constructed:
  "StateVector False [SliceArg (Slice (Some 0) (Some (int k)))] (Some ''u'') None None None
     = Inr (sv_upto k)"
  by (simp add: StateVector_def first_item_def set_evaluation_array_def last_item_def
        np_zeros_def set_slice_True_whole sv_upto_def)

text \<open>
  Claim C7, as the code has it: the identity of a StateVector is the hash of its class,
  name, evaluation mask and domain, and of nothing else.  So two StateVectors with the
  same name, domain and mask have the same identity whatever their slices, as the nodes
  over \<open>slice(0, 2), slice(2, 4)\<close> and over \<open>slice(0, 4)\<close> with one name and one domain
  do; and where the hash does not collide on the tuples of two nodes, their identities
  are equal exactly when name, domain and mask are.
\<close>

theorem set_id_content_only:
  "(name a = name b \<and> domain a = domain b \<and> evaluation_array a = evaluation_array b \<longrightarrow>
      set_id hash a = set_id hash b) \<and>
   (inj_on hash {id_key a, id_key b} \<longrightarrow>
      (set_id hash a = set_id hash b) =
      (name a = name b \<and> domain a = domain b \<and> evaluation_array a = evaluation_array b)) \<and>
   map_sum id (set_id hash)
     (StateVector False [SliceArg (Slice (Some 0) (Some 2)), SliceArg (Slice (Some 2) (Some 4))]
        (Some ''u'') (Some [''A'']) None None) =
   map_sum id (set_id hash)
     (StateVector False [SliceArg (Slice (Some 0) (Some 4))] (Some ''u'') (Some [''A''])
        None None) \<and>
   map_sum id y_slices
     (StateVector False [SliceArg (Slice (Some 0) (Some 2)), SliceArg (Slice (Some 2) (Some 4))]
        (Some ''u'') (Some [''A'']) None None) \<noteq>
   map_sum id y_slices
     (StateVector False [SliceArg (Slice (Some 0) (Some 4))] (Some ''u'') (Some [''A''])
        None None)"
proof -
  have "inj StrItem" by (simp add: inj_def)
  then have "(map StrItem (domain a) = map StrItem (domain b)) = (domain a = domain b)"
    by (simp add: inj_map_eq_map)
  then have key: "(id_key a = id_key b) =
    (name a = name b \<and> domain a = domain b \<and> evaluation_array a = evaluation_array b)"
    by (auto simp: id_key_def)
  have g1: "name a = name b \<and> domain a = domain b \<and> evaluation_array a = evaluation_array b \<longrightarrow>
      set_id hash a = set_id hash b"
    unfolding set_id_def using key by metis
  have g2: "inj_on hash {id_key a, id_key b} \<longrightarrow>
      (set_id hash a = set_id hash b) =
      (name a = name b \<and> domain a = domain b \<and> evaluation_array a = evaluation_array b)"
  proof
    assume inj: "inj_on hash {id_key a, id_key b}"
    have "(hash (id_key a) = hash (id_key b)) = (id_key a = id_key b)"
      by (rule inj_on_eq_iff [OF inj]) simp_all
    then show "(set_id hash a = set_id hash b) =
      (name a = name b \<and> domain a = domain b \<and> evaluation_array a = evaluation_array b)"
      using key by (simp add: set_id_def)
  qed
  have c1: "StateVector False
        [SliceArg (Slice (Some 0) (Some 2)), SliceArg (Slice (Some 2) (Some 4))]
        (Some ''u'') (Some [''A'']) None None =
     Inr (sv_on ''u'' [''A''] [Slice (Some 0) (Some 2), Slice (Some 2) (Some 4)]
            [True, True, True, True])"
    unfolding sv_on_def by code_simp
  have c2: "StateVector False [SliceArg (Slice (Some 0) (Some 4))] (Some ''u'') (Some [''A''])
        None None =
     Inr (sv_on ''u'' [''A''] [Slice (Some 0) (Some 4)] [True, True, True, True])"
    unfolding sv_on_def by code_simp
  have g3: "map_sum id (set_id hash)
     (StateVector False [SliceArg (Slice (Some 0) (Some 2)), SliceArg (Slice (Some 2) (Some 4))]
        (Some ''u'') (Some [''A'']) None None) =
   map_sum id (set_id hash)
     (StateVector False [SliceArg (Slice (Some 0) (Some 4))] (Some ''u'') (Some [''A''])
        None None)"
    unfolding c1 c2 by (simp add: set_id_def id_key_def sv_on_def)
  have g4: "map_sum id y_slices
     (StateVector False [SliceArg (Slice (Some 0) (Some 2)), SliceArg (Slice (Some 2) (Some 4))]
        (Some ''u'') (Some [''A'']) None None) \<noteq>
   map_sum id y_slices
     (StateVector False [SliceArg (Slice (Some 0) (Some 4))] (Some ''u'') (Some [''A''])
        None None)"
    unfolding c1 c2 by (simp add: sv_on_def)
  show ?thesis using g1 g2 g3 g4 by blast
qed

text \<open>
  Claim C7, witness, with the length of the tuple as the hash: the two nodes with one
  mask share an identity, and two nodes whose domains differ, on whose tuples this hash
  does not collide, have different identities.
\<close>

theorem set_id_content_only_witness:
  "set_id length
     (sv_on ''u'' [''A''] [Slice (Some 0) (Some 2), Slice (Some 2) (Some 4)]
        [True, True, True, True]) =
   set_id length (sv_on ''u'' [''A''] [Slice (Some 0) (Some 4)] [True, True, True, True]) \<and>
   inj_on length {id_key sv_0_2, id_key (sv_on ''y[0:2]'' [''A''] [Slice (Some 0) (Some 2)] [True, True])} \<and>
   set_id length sv_0_2 \<noteq>
   set_id length (sv_on ''y[0:2]'' [''A''] [Slice (Some 0) (Some 2)] [True, True])"
proof -
  have i: "inj_on length {id_key sv_0_2,
      id_key (sv_on ''y[0:2]'' [''A''] [Slice (Some 0) (Some 2)] [True, True])}"
    by (simp add: id_key_def sv_0_2_def sv_on_def)
  have d: "domain sv_0_2 \<noteq> domain (sv_on ''y[0:2]'' [''A''] [Slice (Some 0) (Some 2)] [True, True])"
    by (simp add: sv_0_2_def sv_on_def)
  have s: "name (sv_on ''u'' [''A''] [Slice (Some 0) (Some 2), Slice (Some 2) (Some 4)]
        [True, True, True, True]) = name (sv_on ''u'' [''A''] [Slice (Some 0) (Some 4)] [True, True, True, True])
     \<and> domain (sv_on ''u'' [''A''] [Slice (Some 0) (Some 2), Slice (Some 2) (Some 4)]
        [True, True, True, True]) = domain (sv_on ''u'' [''A''] [Slice (Some 0) (Some 4)] [True, True, True, True])
     \<and> evaluation_array (sv_on ''u'' [''A''] [Slice (Some 0) (Some 2), Slice (Some 2) (Some 4)]
        [True, True, True, True]) = evaluation_array (sv_on ''u'' [''A''] [Slice (Some 0) (Some 4)] [True, True, True, True])"
    by (simp add: sv_on_def)
  have one: "set_id length
     (sv_on ''u'' [''A''] [Slice (Some 0) (Some 2), Slice (Some 2) (Some 4)]
        [True, True, True, True]) =
   set_id length (sv_on ''u'' [''A''] [Slice (Some 0) (Some 4)] [True, True, True, True])"
    using set_id_content_only
      [of "sv_on ''u'' [''A''] [Slice (Some 0) (Some 2), Slice (Some 2) (Some 4)]
             [True, True, True, True]"
          "sv_on ''u'' [''A''] [Slice (Some 0) (Some 4)] [True, True, True, True]" length] s
    by blast
  have two: "set_id length sv_0_2 \<noteq>
     set_id length (sv_on ''y[0:2]'' [''A''] [Slice (Some 0) (Some 2)] [True, True])"
    using set_id_content_only
      [of sv_0_2 "sv_on ''y[0:2]'' [''A''] [Slice (Some 0) (Some 2)] [True, True]" length] i d
    by blast
  show ?thesis using one i two by blast
qed

text \<open>
  Claim C7, as stated, fails in its only-if half: whatever the hash, as long as its values
  are of fixed width (finitely many), two of the nodes \<open>StateVector(slice(0, k), name="u")\<close>
  have different masks and the same identity.
\<close>

theorem set_id_hash_collides:
  "\<forall>hash :: id_item list \<Rightarrow> 'h :: finite.
     \<exists>k k'. StateVector False [SliceArg (Slice (Some 0) (Some (int k)))] (Some ''u'') None None None
              = Inr (sv_upto k) \<and>
            StateVector False [SliceArg (Slice (Some 0) (Some (int k')))] (Some ''u'') None None None
              = Inr (sv_upto k') \<and>
            evaluation_array (sv_upto k) \<noteq> evaluation_array (sv_upto k') \<and>
            set_id hash (sv_upto k) = set_id hash (sv_upto k')"
proof
  fix hash :: "id_item list \<Rightarrow> 'h"
  let ?f = "\<lambda>k. set_id hash (sv_upto k)"
  have "\<not> inj ?f"
  proof
    assume "inj ?f"
    moreover have "finite (range ?f)" by (rule finite_subset [OF subset_UNIV finite_UNIV])
    ultimately have "finite (UNIV :: nat set)" by (rule finite_imageD [rotated])
    then show False by simp
  qed
  then obtain k k' where same: "?f k = ?f k'" and ne: "k \<noteq> k'"
    by (auto simp: inj_def)
  have "length (evaluation_array (sv_upto k)) \<noteq> length (evaluation_array (sv_upto k'))"
    using ne by (simp add: sv_upto_def)
  then have "evaluation_array (sv_upto k) \<noteq> evaluation_array (sv_upto k')" by metis
  then show "\<exists>k k'. StateVector False [SliceArg (Slice (Some 0) (Some (int k)))] (Some ''u'') None None None
              = Inr (sv_upto k) \<and>
            StateVector False [SliceArg (Slice (Some 0) (Some (int k')))] (Some ''u'') None None None
              = Inr (sv_upto k') \<and>
            evaluation_array (sv_upto k) \<noteq> evaluation_array (sv_upto k') \<and>
            set_id hash (sv_upto k) = set_id hash (sv_upto k')"
    using same sv_upto_constructed by blast
qed

section \<open>Jacobian of a StateVector\<close>

lemma count_list_map_inj:
  "distinct xs \<Longrightarrow> inj_on h (set xs) \<Longrightarrow>
   count_list (map h xs) y = (if y \<in> h ` set xs then 1 else 0)"
proof (induction xs)
  case Nil
  then show ?case by simp
next
  case (Cons x xs)
  then have ih: "count_list (map h xs) y = (if y \<in> h ` set xs then 1 else 0)" by simp
  have nx: "h x \<notin> h ` set xs" using Cons.prems by (auto simp: inj_on_def)
  show ?case using ih nx by auto
qed

lemma set_intersect1d: "set (intersect1d xs ys) = set xs \<inter> set ys"
  by (auto simp: intersect1d_def)

lemma distinct_intersect1d: "distinct (intersect1d xs ys)"
  by (simp add: intersect1d_def)


lemma length_upto_int: "length [a..b - 1] = nat (b - a)"
  by simp

lemma zip_shifted: "zip (map (\<lambda>k. k - a) I) (map (\<lambda>k. k - (c::int)) I) = map (\<lambda>k. (k - a, k - c)) I"
  by (induction I) auto

lemma jac_no_common:
  assumes "intersect1d [a..b - 1] [c..d - 1] = []" "i < nat (b - a)" "j < nat (d - c)"
  shows "a + int i \<noteq> c + int j"
proof
  assume e: "a + int i = c + int j"
  have "a + int i \<in> set [a..b - 1]" using assms(2) by auto
  moreover have "a + int i \<in> set [c..d - 1]" using assms(3) e by auto
  ultimately have "a + int i \<in> set (intersect1d [a..b - 1] [c..d - 1])"
    by (simp only: set_intersect1d Int_iff)
  then show False using assms(1) by simp
qed



lemma shift_pair_inj: "inj_on (\<lambda>k::int. (k - a, k - c)) A"
  by (rule inj_onI) simp

lemma shift_pair_member_eq: "(int i, int j) \<in> (\<lambda>k::int. (k - a, k - c)) ` A \<Longrightarrow> a + int i = c + int j"
proof -
  assume "(int i, int j) \<in> (\<lambda>k::int. (k - a, k - c)) ` A"
  then obtain k where "(int i, int j) = (k - a, k - c)" by blast
  then show "a + int i = c + int j" by simp
qed


lemma shift_pair_member:
  assumes "i < nat (b - a)" "j < nat (d - c)" "a + int i = c + int j"
  shows "(int i, int j) \<in> (\<lambda>k::int. (k - a, k - c)) ` set (intersect1d [a..b - 1] [c..d - 1])"
proof -
  have "a + int i \<in> set [a..b - 1]" using assms(1) by auto
  moreover have "a + int i \<in> set [c..d - 1]" using assms(2) assms(3) by auto
  ultimately have m: "a + int i \<in> set (intersect1d [a..b - 1] [c..d - 1])"
    by (simp only: set_intersect1d Int_iff)
  have "(a + int i - a, a + int i - c) = (int i, int j)" using assms(3) by simp
  then show ?thesis using m by (metis (mono_tags, lifting) image_iff)
qed


lemma jac_entry:
  assumes "i < nat (b - a)" "j < nat (d - c)"
  shows "int (count_list (zip (map (\<lambda>k. k - a) (intersect1d [a..b - 1] [c..d - 1]))
                             (map (\<lambda>k. k - c) (intersect1d [a..b - 1] [c..d - 1])))
                        (int i, int j)) =
         (if a + int i = c + int j then 1 else 0)"
proof -
  have cnt: "count_list (map (\<lambda>k. (k - a, k - c)) (intersect1d [a..b - 1] [c..d - 1])) (int i, int j)
      = (if (int i, int j) \<in> (\<lambda>k::int. (k - a, k - c)) ` set (intersect1d [a..b - 1] [c..d - 1])
         then 1 else 0)"
    by (rule count_list_map_inj [OF distinct_intersect1d shift_pair_inj])
  show ?thesis
  proof (cases "a + int i = c + int j")
    case True
    have "count_list (map (\<lambda>k. (k - a, k - c)) (intersect1d [a..b - 1] [c..d - 1])) (int i, int j) = 1"
      using cnt shift_pair_member [OF assms True] by (simp only: if_True)
    then show ?thesis using True by (simp only: zip_shifted of_nat_1 simp_thms if_True)
  next
    case False
    then have "(int i, int j) \<notin> (\<lambda>k::int. (k - a, k - c)) ` set (intersect1d [a..b - 1] [c..d - 1])"
      using shift_pair_member_eq by blast
    then have "count_list (map (\<lambda>k. (k - a, k - c)) (intersect1d [a..b - 1] [c..d - 1])) (int i, int j) = 0"
      using cnt by (simp only: if_False)
    then show ?thesis using False by (simp only: zip_shifted of_nat_0 simp_thms if_False)
  qed
qed


lemma shifted_rows_in_range:
  "list_all (\<lambda>i. 0 \<le> i \<and> i < int (nat (b - a)))
     (map (\<lambda>k. k - a) (intersect1d [a..b - 1] ys))"
  by (auto simp: list_all_iff set_intersect1d)

lemma shifted_cols_in_range:
  "list_all (\<lambda>j. 0 \<le> j \<and> j < int (nat (d - c)))
     (map (\<lambda>k. k - c) (intersect1d xs [c..d - 1]))"
  by (auto simp: list_all_iff set_intersect1d)

text \<open>
  For a node with a single slice and a variable with a single slice, both with integer
  bounds, the code returns the matrix of the specification's wording.
\<close>

lemma jac_single_slice:
  assumes "y_slices self = [Slice (Some a) (Some b)]"
    and "y_slices variable = [Slice (Some c) (Some d)]"
    and "first_point variable = Some c" and "last_point variable = Some d"
  shows "jac self variable = Inr (jac_spec self variable)"
proof -
  let ?S = "[a..b - 1]" and ?V = "[c..d - 1]"
  let ?r = "nat (b - a)" and ?n = "nat (d - c)"
  let ?spec_rows = "map (\<lambda>i. map (\<lambda>j. if a + int i = c + int j then 1 else (0::int)) [0..<?n]) [0..<?r]"
  let ?code_rows = "map (\<lambda>i. map (\<lambda>j. int (count_list
                  (zip (map (\<lambda>k. k - a) (intersect1d ?S ?V)) (map (\<lambda>k. k - c) (intersect1d ?S ?V)))
                  (int i, int j))) [0..<?n]) [0..<?r]"
  have spec: "jac_spec self variable = Matrix ?n ?spec_rows"
    using assms by (simp add: jac_spec_def)
  have lV: "length ?V = ?n" and lS: "length ?S = ?r" by simp_all
  have start: "jac self variable =
      jac_loop c ?V (csr_zeros 0 ?n) [Slice (Some a) (Some b)]"
    using assms lV by (simp add: jac_def np_arange_def)
  show ?thesis
  proof (cases "intersect1d ?S ?V = []")
    case True
    have "\<And>i. i < ?r \<Longrightarrow>
            map (\<lambda>j. if a + int i = c + int j then 1 else (0::int)) [0..<?n] = replicate ?n 0"
    proof -
      fix i assume i: "i < ?r"
      have "map (\<lambda>j. if a + int i = c + int j then 1 else (0::int)) [0..<?n]
            = map (\<lambda>j. 0) [0..<?n]"
        by (rule map_cong [OF refl]) (use jac_no_common [OF True i] in simp)
      then show "map (\<lambda>j. if a + int i = c + int j then 1 else (0::int)) [0..<?n] = replicate ?n 0"
        by (simp add: map_replicate_const)
    qed
    then have "?spec_rows = map (\<lambda>i. replicate ?n 0) [0..<?r]"
      by (intro map_cong [OF refl]) simp
    then have z: "?spec_rows = replicate ?r (replicate ?n 0)"
      by (simp add: map_replicate_const)
    have "jac_loop c ?V (csr_zeros 0 ?n) [Slice (Some a) (Some b)] = Inr (csr_zeros ?r ?n)"
      using True lV lS by (simp add: np_arange_def)
    then show ?thesis unfolding start spec z by (simp add: csr_zeros_def)
  next
    case False
    have rows: "?code_rows = ?spec_rows"
      by (intro map_cong [OF refl]) (simp add: jac_entry)
    have block: "csr_ones (map (\<lambda>k. k - a) (intersect1d ?S ?V))
                   (map (\<lambda>k. k - c) (intersect1d ?S ?V)) ?r ?n = Inr (Matrix ?n ?code_rows)"
      unfolding csr_ones_def
      using shifted_rows_in_range [of b a ?V] shifted_cols_in_range [of d c ?S]
      by (simp only: simp_thms if_True)
    have "jac_loop c ?V (csr_zeros 0 ?n) [Slice (Some a) (Some b)] = Inr (Matrix ?n ?code_rows)"
      using False lV lS block by (simp add: np_arange_def csr_zeros_def vstack_def)
    then show ?thesis unfolding start spec rows .
  qed
qed

text \<open>
  Claim C2 on the code: for the StateVector over \<open>slice(0, 2), slice(5, 7)\<close> and the
  variable over \<open>slice(0, 2)\<close>, \<open>jac\<close> returns a zero matrix of two rows, because the
  branch for a slice that misses the variable replaces the matrix built so far instead of
  stacking a block under it; the stacked blocks of the claim have four rows, the first
  two an identity.  On a single slice against itself the code and the claim agree.
\<close>

theorem jac_drops_rows_before_disjoint_slice:
  "StateVector False [SliceArg (Slice (Some 0) (Some 2)), SliceArg (Slice (Some 5) (Some 7))]
      None None None None = Inr sv_0_2_5_7 \<and>
   StateVector False [SliceArg (Slice (Some 0) (Some 2))] None None None None = Inr sv_0_2 \<and>
   jac sv_0_2_5_7 sv_0_2 = Inr (Matrix 2 [[0, 0], [0, 0]]) \<and>
   jac_spec sv_0_2_5_7 sv_0_2 = Matrix 2 [[1, 0], [0, 1], [0, 0], [0, 0]] \<and>
   jac sv_0_2 sv_0_2 = Inr (jac_spec sv_0_2 sv_0_2)"
  unfolding sv_0_2_5_7_def sv_0_2_def by code_simp

section \<open>Merging auxiliary domains\<close>

text \<open>
  Claim C5 on the code: two children that give the level \<open>secondary\<close> different non-empty
  values raise nothing, and the merged value is the one of the later child; a later child
  with an empty value replaces an earlier non-empty one.  The test
  \<open>hasattr(aux_domains, level)\<close> does not hold for a key of the dict, so the branch that
  raises is never reached.
\<close>

theorem auxiliary_domains_last_value_wins:
  "get_children_auxiliary_domains
     [child_secondary ''a'' [''negative electrode''] [''current collector''],
      child_secondary ''b'' [''positive electrode''] [''separator'']]
     = Inr [(''secondary'', [''separator''])] \<and>
   get_children_auxiliary_domains
     [child_secondary ''a'' [''negative electrode''] [''current collector''],
      child_secondary ''b'' [''positive electrode''] []]
     = Inr [(''secondary'', [])]"
  unfolding child_secondary_def by code_simp

section \<open>The slices of a DomainConcatenation\<close>

lemma defaultdict_get_append_slice:
  "defaultdict_get (append_slice sl d s) d' =
     (if d' = d then defaultdict_get sl d @ [s] else defaultdict_get sl d')"
  by (simp add: defaultdict_get_def append_slice_def update_conv')

lemma loop_step:
  "create_slices_loop m sl s e ((i, d) # rest) = Inr r \<Longrightarrow>
   create_slices_loop m (append_slice sl d (mk_slice s (e + npts_of m (i, d))))
      (e + npts_of m (i, d)) (e + npts_of m (i, d)) rest = Inr r"
  by (auto simp: dict_get_def item_def npts_of_def split: option.splits if_splits sum.splits)

lemma loop_append:
  "create_slices_loop m sl e e (ps @ qs) = Inr r \<Longrightarrow>
   \<exists>sl1. create_slices_loop m sl e e ps = Inr sl1 \<and>
         create_slices_loop m sl1 (e + sum_list (map (npts_of m) ps))
            (e + sum_list (map (npts_of m) ps)) qs = Inr r"
proof (induction ps arbitrary: sl e)
  case Nil
  then show ?case by simp
next
  case (Cons p ps)
  obtain i d where p: "p = (i, d)" by (cases p)
  let ?n = "npts_of m (i, d)"
  from Cons.prems have step: "create_slices_loop m (append_slice sl d (mk_slice e (e + ?n)))
      (e + ?n) (e + ?n) (ps @ qs) = Inr r"
    unfolding p using loop_step [of m sl e e i d "ps @ qs" r] by simp
  from Cons.IH [OF step] obtain sl1 where
    a: "create_slices_loop m (append_slice sl d (mk_slice e (e + ?n))) (e + ?n) (e + ?n) ps = Inr sl1"
    and b: "create_slices_loop m sl1 (e + ?n + sum_list (map (npts_of m) ps))
            (e + ?n + sum_list (map (npts_of m) ps)) qs = Inr r" by blast
  have ok: "\<exists>subs. dict_get (submeshes m) d = Inr subs \<and> item subs i = Inr ?n"
    using Cons.prems unfolding p
    by (auto simp: dict_get_def item_def npts_of_def split: option.splits if_splits sum.splits)
  have "create_slices_loop m sl e e (p # ps) = Inr sl1"
    using a ok unfolding p by auto
  moreover have "e + ?n + sum_list (map (npts_of m) ps) = e + sum_list (map (npts_of m) (p # ps))"
    by (simp add: p)
  ultimately show ?case using b by metis
qed

text \<open>One round of the inner loop: the domains of one secondary index.\<close>

lemma round_result:
  "create_slices_loop m sl c c (map (Pair i) ds) = Inr r \<Longrightarrow> distinct ds \<Longrightarrow>
   map (\<lambda>d. last (defaultdict_get r d)) ds = chain c (map (\<lambda>d. npts_of m (i, d)) ds) \<and>
   (\<forall>d \<in> set ds. defaultdict_get r d = defaultdict_get sl d @ [last (defaultdict_get r d)]) \<and>
   (\<forall>d. d \<notin> set ds \<longrightarrow> defaultdict_get r d = defaultdict_get sl d)"
proof (induction ds arbitrary: sl c)
  case Nil
  then show ?case by simp
next
  case (Cons d ds)
  let ?n = "npts_of m (i, d)"
  let ?sl0 = "append_slice sl d (mk_slice c (c + ?n))"
  have step: "create_slices_loop m ?sl0 (c + ?n) (c + ?n) (map (Pair i) ds) = Inr r"
    using loop_step [of m sl c c i d "map (Pair i) ds" r] Cons.prems(1) by simp
  have dist: "distinct ds" and notin: "d \<notin> set ds" using Cons.prems(2) by auto
  note ih = Cons.IH [OF step dist]
  have rd: "defaultdict_get r d = defaultdict_get sl d @ [mk_slice c (c + ?n)]"
    using ih notin by (simp add: defaultdict_get_append_slice)
  have rest: "\<forall>d' \<in> set ds. defaultdict_get r d' = defaultdict_get sl d' @ [last (defaultdict_get r d')]"
  proof
    fix d' assume d': "d' \<in> set ds"
    then have "d' \<noteq> d" using notin by auto
    then have "defaultdict_get ?sl0 d' = defaultdict_get sl d'"
      by (simp add: defaultdict_get_append_slice)
    moreover have "defaultdict_get r d' = defaultdict_get ?sl0 d' @ [last (defaultdict_get r d')]"
      using ih d' by blast
    ultimately show "defaultdict_get r d' = defaultdict_get sl d' @ [last (defaultdict_get r d')]"
      by simp
  qed
  have other: "\<forall>d'. d' \<notin> set (d # ds) \<longrightarrow> defaultdict_get r d' = defaultdict_get sl d'"
    using ih by (auto simp: defaultdict_get_append_slice)
  show ?case using ih rd rest other by simp
qed

lemma product_snoc:
  "List.product (xs @ [x]) ys = List.product xs ys @ map (Pair x) ys"
  by (induction xs) auto

lemma chain_append:
  "chain c (ns @ ms) = chain c ns @ chain (c + sum_list ns) ms"
  by (induction ns arbitrary: c) (auto simp: add.assoc)

lemma rounds_result:
  "create_slices_loop m [] 0 0 (List.product [0..<n] ds) = Inr r \<Longrightarrow> distinct ds \<Longrightarrow>
   (\<forall>d \<in> set ds. length (defaultdict_get r d) = n) \<and>
   (\<forall>d. d \<notin> set ds \<longrightarrow> defaultdict_get r d = []) \<and>
   map (\<lambda>(i, d). defaultdict_get r d ! i) (List.product [0..<n] ds) =
     chain 0 (map (npts_of m) (List.product [0..<n] ds))"
proof (induction n arbitrary: r)
  case 0
  then show ?case by (simp add: defaultdict_get_def)
next
  case (Suc n)
  let ?ps = "List.product [0..<n] ds"
  let ?T = "sum_list (map (npts_of m) ?ps)"
  have split: "List.product [0..<Suc n] ds = ?ps @ map (Pair n) ds"
    by (simp add: product_snoc)
  from Suc.prems(1) obtain sl1 where
    a: "create_slices_loop m [] 0 0 ?ps = Inr sl1" and
    b: "create_slices_loop m sl1 ?T ?T (map (Pair n) ds) = Inr r"
    unfolding split using loop_append [of m "[]" 0 ?ps "map (Pair n) ds" r] by auto
  note ih = Suc.IH [OF a Suc.prems(2)]
  note rr = round_result [OF b Suc.prems(2)]
  have len1: "\<forall>d \<in> set ds. length (defaultdict_get sl1 d) = n" using ih by blast
  have ext: "\<forall>d \<in> set ds. defaultdict_get r d = defaultdict_get sl1 d @ [last (defaultdict_get r d)]"
    using rr by blast
  have len: "\<forall>d \<in> set ds. length (defaultdict_get r d) = Suc n"
  proof
    fix d assume d: "d \<in> set ds"
    have "length (defaultdict_get r d) = length (defaultdict_get sl1 d @ [last (defaultdict_get r d)])"
      using ext d by metis
    then show "length (defaultdict_get r d) = Suc n" using len1 d by simp
  qed
  have old: "\<And>i d. i < n \<Longrightarrow> d \<in> set ds \<Longrightarrow> defaultdict_get r d ! i = defaultdict_get sl1 d ! i"
  proof -
    fix i d assume i: "i < n" and d: "d \<in> set ds"
    have "defaultdict_get r d ! i = (defaultdict_get sl1 d @ [last (defaultdict_get r d)]) ! i"
      using ext d by metis
    then show "defaultdict_get r d ! i = defaultdict_get sl1 d ! i"
      using len1 d i by (simp add: nth_append)
  qed
  have new: "\<And>d. d \<in> set ds \<Longrightarrow> defaultdict_get r d ! n = last (defaultdict_get r d)"
  proof -
    fix d assume d: "d \<in> set ds"
    have "length (defaultdict_get r d) = Suc n" using len d by blast
    then show "defaultdict_get r d ! n = last (defaultdict_get r d)"
      by (metis diff_Suc_1 last_conv_nth length_0_conv nat.distinct(1))
  qed
  have p1: "map (\<lambda>(i, d). defaultdict_get r d ! i) ?ps = map (\<lambda>(i, d). defaultdict_get sl1 d ! i) ?ps"
    by (rule map_cong) (auto simp: old)
  have p2: "map (\<lambda>(i, d). defaultdict_get r d ! i) (map (Pair n) ds) =
            map (\<lambda>d. last (defaultdict_get r d)) ds"
    by (simp add: comp_def new cong: map_cong)
  have outside: "\<forall>d. d \<notin> set ds \<longrightarrow> defaultdict_get r d = []"
    using rr ih by auto
  have "map (\<lambda>(i, d). defaultdict_get r d ! i) (List.product [0..<Suc n] ds) =
        chain 0 (map (npts_of m) ?ps) @ chain ?T (map (\<lambda>d. npts_of m (n, d)) ds)"
    unfolding split map_append p1 p2 using ih rr by simp
  also have "\<dots> = chain 0 (map (npts_of m) (List.product [0..<Suc n] ds))"
    unfolding split by (simp add: chain_append comp_def)
  finally show ?case using len outside by blast
qed

lemma length_chain: "length (chain c ns) = length ns"
  by (induction ns arbitrary: c) auto

lemma chain_nth:
  "k < length ns \<Longrightarrow>
   chain c ns ! k = mk_slice (c + sum_list (take k ns)) (c + sum_list (take (Suc k) ns))"
proof (induction ns arbitrary: c k)
  case Nil
  then show ?case by simp
next
  case (Cons n ns)
  show ?case
  proof (cases k)
    case 0
    then show ?thesis by simp
  next
    case (Suc j)
    then have "j < length ns" using Cons.prems by simp
    from Cons.IH [OF this, of "c + n"] show ?thesis using Suc by (simp add: add.assoc)
  qed
qed

lemma chain_last_stop:
  "ns \<noteq> [] \<Longrightarrow> stop (last (chain c ns)) = Some (int (c + sum_list ns))"
proof (induction ns arbitrary: c)
  case Nil
  then show ?case by simp
next
  case (Cons n ns)
  show ?case
  proof (cases "ns = []")
    case True
    then show ?thesis by (simp add: mk_slice_def)
  next
    case False
    then have "chain (c + n) ns \<noteq> []" by (cases ns) auto
    then show ?thesis using Cons.IH [OF False, of "c + n"] by (simp add: add.assoc)
  qed
qed

lemma sum_take_le: "sum_list (take j (ms :: nat list)) \<le> sum_list ms"
proof -
  have "sum_list ms = sum_list (take j ms) + sum_list (drop j ms)"
    by (metis append_take_drop_id sum_list_append)
  then show ?thesis by simp
qed

lemma sum_take_mono: "i \<le> j \<Longrightarrow> sum_list (take i (ms :: nat list)) \<le> sum_list (take j ms)"
proof -
  assume "i \<le> j"
  then have "take i ms = take i (take j ms)" by (simp add: min_def)
  then show ?thesis using sum_take_le [of i "take j ms"] by simp
qed

lemma prefix_sum_unique:
  "p < sum_list (ns :: nat list) \<Longrightarrow>
   \<exists>!k. k < length ns \<and> sum_list (take k ns) \<le> p \<and> p < sum_list (take (Suc k) ns)"
proof -
  assume p: "p < sum_list ns"
  let ?P = "\<lambda>k. k < length ns \<and> p < sum_list (take (Suc k) ns)"
  have ne: "ns \<noteq> []" using p by auto
  then have "?P (length ns - 1)" using p by simp
  then have ex: "\<exists>k. ?P k" by blast
  define k0 where "k0 = (LEAST k. ?P k)"
  have k0: "?P k0" unfolding k0_def using ex by (rule LeastI_ex)
  have least: "\<And>j. ?P j \<Longrightarrow> k0 \<le> j" unfolding k0_def by (rule Least_le)
  have lower: "sum_list (take k0 ns) \<le> p"
  proof (cases k0)
    case 0
    then show ?thesis by simp
  next
    case (Suc j)
    then have "\<not> ?P j" using least [of j] by auto
    moreover have "j < length ns" using k0 Suc by simp
    ultimately show ?thesis using Suc by simp
  qed
  show ?thesis
  proof (rule ex1I [of _ k0])
    show "k0 < length ns \<and> sum_list (take k0 ns) \<le> p \<and> p < sum_list (take (Suc k0) ns)"
      using k0 lower by simp
  next
    fix k assume k: "k < length ns \<and> sum_list (take k ns) \<le> p \<and> p < sum_list (take (Suc k) ns)"
    then have ge: "k0 \<le> k" using least [of k] by simp
    have "\<not> k0 < k"
    proof
      assume "k0 < k"
      then have "sum_list (take (Suc k0) ns) \<le> sum_list (take k ns)"
        by (simp add: sum_take_mono)
      then show False using k k0 by simp
    qed
    then show "k = k0" using ge by simp
  qed
qed

lemma last_product:
  "xs \<noteq> [] \<Longrightarrow> ys \<noteq> [] \<Longrightarrow> last (List.product xs ys) = (last xs, last ys)"
proof (induction xs)
  case Nil
  then show ?case by simp
next
  case (Cons x xs)
  show ?case
  proof (cases "xs = []")
    case True
    then show ?thesis using Cons.prems by (simp add: last_map)
  next
    case False
    then have "List.product xs ys \<noteq> []" using Cons.prems by (cases xs; cases ys) auto
    then show ?thesis using Cons.IH [OF False Cons.prems(2)] False by simp
  qed
qed

lemma domain_dict_loop_distinct:
  "domain_dict_loop order acc ds = Inr r \<Longrightarrow> distinct (map fst acc) \<Longrightarrow> distinct (map fst r)"
proof (induction ds arbitrary: acc)
  case Nil
  then show ?case by simp
next
  case (Cons d ds)
  then show ?case
    by (auto split: sum.splits simp: distinct_update)
qed

lemma sorted_domain_distinct: "sorted_domain m ds = Inr dmn \<Longrightarrow> distinct dmn"
proof -
  assume a: "sorted_domain m ds = Inr dmn"
  then obtain dd where dd: "domain_dict_loop (domain_order m) [] ds = Inr dd"
    and dmn: "dmn = map fst (sort_key snd dd)"
    by (auto simp: sorted_domain_def split: sum.splits)
  have "distinct (map fst dd)" using domain_dict_loop_distinct [OF dd] by simp
  then have "distinct dd \<and> inj_on fst (set dd)" by (simp add: distinct_map)
  then have "distinct (map fst (sort_key snd dd))" by (simp add: distinct_map)
  then show ?thesis using dmn by simp
qed

lemma DomainConcatenation_fields:
  assumes "DomainConcatenation cs m None = Inr dc"
  shows "\<exists>merged subs final.
      sorted_domain m merged = Inr (domain dc) \<and> domain dc \<noteq> [] \<and>
      dict_get (submeshes m) (hd (domain dc)) = Inr subs \<and>
      secondary_dimensions_npts dc = length subs \<and>
      create_slices m (length subs) (domain dc) = Inr (slices dc) \<and>
      last_item (defaultdict_get (slices dc) (last (domain dc))) = Inr final \<and>
      size_attr dc = stop final \<and> mesh dc = m \<and> children dc = cs"
  using assms unfolding DomainConcatenation_def
  by (auto split: sum.splits if_splits)

lemma create_slices_loop_of:
  "create_slices m n dmn = Inr sl \<Longrightarrow>
   create_slices_loop m [] 0 0 (List.product [0..<n] dmn) = Inr sl"
  by (auto simp: create_slices_def split: sum.splits if_splits)

lemma created_slices_chain:
  assumes "DomainConcatenation cs m None = Inr dc"
  shows "created_slices dc =
           chain 0 (map (npts_of m)
             (List.product [0..<secondary_dimensions_npts dc] (domain dc)))"
    and "distinct (domain dc)" and "domain dc \<noteq> []" and "0 < secondary_dimensions_npts dc"
    and "\<forall>d \<in> set (domain dc). length (defaultdict_get (slices dc) d) = secondary_dimensions_npts dc"
    and "size_attr dc = stop (last (created_slices dc))"
proof -
  from DomainConcatenation_fields [OF assms] obtain merged subs final where
    sd: "sorted_domain m merged = Inr (domain dc)" and ne: "domain dc \<noteq> []" and
    dg: "dict_get (submeshes m) (hd (domain dc)) = Inr subs" and
    n: "secondary_dimensions_npts dc = length subs" and
    cr: "create_slices m (length subs) (domain dc) = Inr (slices dc)" and
    fin: "last_item (defaultdict_get (slices dc) (last (domain dc))) = Inr final" and
    sz: "size_attr dc = stop final" by blast
  show dist: "distinct (domain dc)" using sd by (rule sorted_domain_distinct)
  show "domain dc \<noteq> []" by (rule ne)
  note rr = rounds_result [OF create_slices_loop_of [OF cr] dist]
  show ch: "created_slices dc =
           chain 0 (map (npts_of m)
             (List.product [0..<secondary_dimensions_npts dc] (domain dc)))"
    using rr by (simp add: created_slices_def n)
  show len: "\<forall>d \<in> set (domain dc). length (defaultdict_get (slices dc) d) = secondary_dimensions_npts dc"
    using rr n by simp
  have l: "last (domain dc) \<in> set (domain dc)" using ne by simp
  have nonempty: "defaultdict_get (slices dc) (last (domain dc)) \<noteq> []"
    and final: "final = last (defaultdict_get (slices dc) (last (domain dc)))"
    using fin by (auto simp: last_item_def split: if_splits)
  have "length (defaultdict_get (slices dc) (last (domain dc))) = secondary_dimensions_npts dc"
    using len l by blast
  then show pos: "0 < secondary_dimensions_npts dc" using nonempty by (metis length_greater_0_conv)
  then have up: "[0..<secondary_dimensions_npts dc] \<noteq> []"
    and lastup: "last [0..<secondary_dimensions_npts dc] = secondary_dimensions_npts dc - 1"
    by auto
  have pne: "List.product [0..<secondary_dimensions_npts dc] (domain dc) \<noteq> []"
    using up ne by (cases "[0..<secondary_dimensions_npts dc]"; cases "domain dc") auto
  have "last (created_slices dc) =
          defaultdict_get (slices dc) (last (domain dc)) ! (secondary_dimensions_npts dc - 1)"
    unfolding created_slices_def using pne last_product [OF up ne] lastup
    by (simp add: last_map)
  also have "\<dots> = final"
    using final nonempty len l by (simp add: last_conv_nth)
  finally show "size_attr dc = stop (last (created_slices dc))" using sz by simp
qed

text \<open>
  Claim C10: for a DomainConcatenation built from a mesh (not by copy), the slices in
  the order they are created, one per secondary index and domain, are cut out of
  \<open>[0, size)\<close> by increasing cut points: the first starts at 0, each starts where the one
  before stops, the last stops at \<open>size\<close>, and every position below \<open>size\<close> lies in
  exactly one of them.
\<close>

theorem created_slices_partition:
  assumes "DomainConcatenation cs m None = Inr dc"
  shows "\<exists>bs. length (created_slices dc) = secondary_dimensions_npts dc * length (domain dc) \<and>
     created_slices dc \<noteq> [] \<and>
     length bs = Suc (length (created_slices dc)) \<and> hd bs = 0 \<and>
     size_attr dc = Some (int (last bs)) \<and>
     (\<forall>k < length (created_slices dc).
        created_slices dc ! k = mk_slice (bs ! k) (bs ! Suc k) \<and> bs ! k \<le> bs ! Suc k) \<and>
     (\<forall>p < last bs. \<exists>!k. k < length (created_slices dc) \<and> bs ! k \<le> p \<and> p < bs ! Suc k)"
proof -
  let ?ps = "List.product [0..<secondary_dimensions_npts dc] (domain dc)"
  let ?ns = "map (npts_of m) ?ps"
  let ?N = "length ?ns"
  define bs where "bs = map (\<lambda>k. sum_list (take k ?ns)) [0..<Suc ?N]"
  note f = created_slices_chain [OF assms]
  have ch: "created_slices dc = chain 0 ?ns" by (rule f(1))
  have len: "length (created_slices dc) = ?N" by (simp add: ch length_chain)
  have N: "?N = secondary_dimensions_npts dc * length (domain dc)" by simp
  have pos: "0 < ?N" using f(3) f(4) by simp
  then have ne: "created_slices dc \<noteq> []" using len by auto
  have nth: "\<And>k. k \<le> ?N \<Longrightarrow> bs ! k = sum_list (take k ?ns)"
    unfolding bs_def by (simp add: nth_append less_Suc_eq_le del: upt_Suc)
  have lbs: "length bs = Suc ?N" by (simp add: bs_def)
  have hd: "hd bs = 0" unfolding bs_def by (simp add: upt_rec [of 0])
  have "last bs = bs ! ?N" using lbs by (metis diff_Suc_1 last_conv_nth length_0_conv nat.distinct(1))
  then have last: "last bs = sum_list ?ns" using nth [of ?N] by simp
  from pos have "?ns \<noteq> []" by (metis length_greater_0_conv)
  then have "stop (last (chain 0 ?ns)) = Some (int (sum_list ?ns))"
    using chain_last_stop [of ?ns 0] by simp
  then have size: "size_attr dc = Some (int (last bs))" using f(6) ch last by simp
  have each: "\<forall>k < length (created_slices dc).
        created_slices dc ! k = mk_slice (bs ! k) (bs ! Suc k) \<and> bs ! k \<le> bs ! Suc k"
  proof (intro allI impI)
    fix k assume "k < length (created_slices dc)"
    then have k: "k < ?N" using len by simp
    then have "created_slices dc ! k = mk_slice (bs ! k) (bs ! Suc k)"
      using chain_nth [of k ?ns 0] nth [of k] nth [of "Suc k"] ch by simp
    moreover have "bs ! k \<le> bs ! Suc k"
      using nth [of k] nth [of "Suc k"] k sum_take_mono [of k "Suc k" ?ns] by simp
    ultimately show "created_slices dc ! k = mk_slice (bs ! k) (bs ! Suc k) \<and> bs ! k \<le> bs ! Suc k"
      by simp
  qed
  have uniq: "\<forall>p < last bs. \<exists>!k. k < length (created_slices dc) \<and> bs ! k \<le> p \<and> p < bs ! Suc k"
  proof (intro allI impI)
    fix p assume "p < last bs"
    then have "p < sum_list ?ns" using last by simp
    from prefix_sum_unique [OF this]
    have u: "\<exists>!k. k < ?N \<and> sum_list (take k ?ns) \<le> p \<and> p < sum_list (take (Suc k) ?ns)" by simp
    have eq: "\<And>k. (k < length (created_slices dc) \<and> bs ! k \<le> p \<and> p < bs ! Suc k) =
                  (k < ?N \<and> sum_list (take k ?ns) \<le> p \<and> p < sum_list (take (Suc k) ?ns))"
      using nth len by (metis Suc_leI less_imp_le_nat)
    show "\<exists>!k. k < length (created_slices dc) \<and> bs ! k \<le> p \<and> p < bs ! Suc k"
      using u unfolding eq .
  qed
  show ?thesis using len N ne lbs hd size each uniq by (intro exI [of _ bs]) simp
qed

text \<open>
  Claim C10, witness: over a mesh with two secondary points, 2 points on \<open>A\<close> and 3 on
  \<open>B\<close>, the slices are created as \<open>[0,2), [2,5), [5,7), [7,10)\<close>.
\<close>

theorem created_slices_partition_witness:
  "\<exists>dc. DomainConcatenation [child_on ''B'', child_on ''A''] (mesh_AB [2, 2] [3, 3]) None = Inr dc \<and>
     created_slices dc = [mk_slice 0 2, mk_slice 2 5, mk_slice 5 7, mk_slice 7 10] \<and>
     (\<exists>bs. length (created_slices dc) = secondary_dimensions_npts dc * length (domain dc) \<and>
     created_slices dc \<noteq> [] \<and>
     length bs = Suc (length (created_slices dc)) \<and> hd bs = 0 \<and>
     size_attr dc = Some (int (last bs)) \<and>
     (\<forall>k < length (created_slices dc).
        created_slices dc ! k = mk_slice (bs ! k) (bs ! Suc k) \<and> bs ! k \<le> bs ! Suc k) \<and>
     (\<forall>p < last bs. \<exists>!k. k < length (created_slices dc) \<and> bs ! k \<le> p \<and> p < bs ! Suc k))"
proof -
  have "case DomainConcatenation [child_on ''B'', child_on ''A''] (mesh_AB [2, 2] [3, 3]) None of
          Inl e \<Rightarrow> False
        | Inr dc \<Rightarrow> created_slices dc = [mk_slice 0 2, mk_slice 2 5, mk_slice 5 7, mk_slice 7 10]"
    unfolding child_on_def mesh_AB_def by code_simp
  then obtain dc where
    dc: "DomainConcatenation [child_on ''B'', child_on ''A''] (mesh_AB [2, 2] [3, 3]) None = Inr dc"
    and cr: "created_slices dc = [mk_slice 0 2, mk_slice 2 5, mk_slice 5 7, mk_slice 7 10]"
    by (auto split: sum.splits)
  from created_slices_partition [OF dc] dc cr show ?thesis by blast
qed

text \<open>The domain of a DomainConcatenation: the domains of its children, in canonical order.\<close>

lemma get_children_domains_loop_result:
  "get_children_domains_loop dmn cs = Inr r \<Longrightarrow> r = dmn @ concat (map child_domain cs)"
proof (induction cs arbitrary: dmn)
  case Nil
  then show ?case by simp
next
  case (Cons c cs)
  from Cons.prems have "get_children_domains_loop (dmn @ child_domain c) cs = Inr r"
    by (auto split: if_splits)
  from Cons.IH [OF this] show ?case by simp
qed

lemma list_index_nth:
  "list_index xs x = Inr i \<Longrightarrow> i < length xs \<and> xs ! i = x"
proof (induction xs arbitrary: i)
  case Nil
  then show ?case by simp
next
  case (Cons y ys)
  show ?case
  proof (cases "y = x")
    case True
    then show ?thesis using Cons.prems by simp
  next
    case False
    then obtain n where n: "list_index ys x = Inr n" and i: "i = Suc n"
      using Cons.prems by (auto split: sum.splits)
    from Cons.IH [OF n] show ?thesis using i by simp
  qed
qed

lemma domain_dict_loop_indices:
  "domain_dict_loop order acc ds = Inr dd \<Longrightarrow>
   (\<forall>k v. map_of acc k = Some v \<longrightarrow> list_index order k = Inr v) \<Longrightarrow>
   (\<forall>k v. map_of dd k = Some v \<longrightarrow> list_index order k = Inr v) \<and>
   fst ` set dd = fst ` set acc \<union> set ds"
proof (induction ds arbitrary: acc)
  case Nil
  then show ?case by simp
next
  case (Cons d ds)
  from Cons.prems(1) obtain i where i: "list_index order d = Inr i"
    and rest: "domain_dict_loop order (AList.update d i acc) ds = Inr dd"
    by (auto split: sum.splits)
  have inv: "\<forall>k v. map_of (AList.update d i acc) k = Some v \<longrightarrow> list_index order k = Inr v"
    using Cons.prems(2) i by (simp add: update_conv')
  from Cons.IH [OF rest inv] show ?case by (auto simp: dom_update)
qed

lemma sorted_domain_canonical:
  assumes "sorted_domain m ds = Inr dmn"
  shows "set dmn = set ds"
    and "j < j' \<Longrightarrow> j' < length dmn \<Longrightarrow>
         \<exists>p q. list_index (domain_order m) (dmn ! j) = Inr p \<and>
               list_index (domain_order m) (dmn ! j') = Inr q \<and> p < q"
proof -
  from assms obtain dd where dd: "domain_dict_loop (domain_order m) [] ds = Inr dd"
    and dmn: "dmn = map fst (sort_key snd dd)"
    by (auto simp: sorted_domain_def split: sum.splits)
  let ?sd = "sort_key snd dd"
  have idx: "\<forall>k v. map_of dd k = Some v \<longrightarrow> list_index (domain_order m) k = Inr v"
    and keys: "fst ` set dd = set ds"
    using domain_dict_loop_indices [OF dd] by auto
  have dist: "distinct (map fst dd)" using domain_dict_loop_distinct [OF dd] by simp
  show "set dmn = set ds" using keys dmn by simp
  assume j: "j < j'" and j': "j' < length dmn"
  have len: "length ?sd = length dmn" using dmn by simp
  have at: "\<And>i. i < length dmn \<Longrightarrow>
      list_index (domain_order m) (dmn ! i) = Inr (snd (?sd ! i))"
  proof -
    fix i assume i: "i < length dmn"
    then have "?sd ! i \<in> set dd" using len by (metis nth_mem set_sort)
    then have "(fst (?sd ! i), snd (?sd ! i)) \<in> set dd" by simp
    then have "map_of dd (fst (?sd ! i)) = Some (snd (?sd ! i))"
      using dist by (rule map_of_is_SomeI [rotated])
    then have "list_index (domain_order m) (fst (?sd ! i)) = Inr (snd (?sd ! i))"
      using idx by blast
    then show "list_index (domain_order m) (dmn ! i) = Inr (snd (?sd ! i))"
      using dmn i by simp
  qed
  have "sorted (map snd ?sd)" by (rule sorted_sort_key)
  then have le: "snd (?sd ! j) \<le> snd (?sd ! j')"
    using j j' len by (simp add: sorted_iff_nth_mono)
  have "dmn ! j \<noteq> dmn ! j'"
    using sorted_domain_distinct [OF assms] j j' by (simp add: nth_eq_iff_index_eq)
  moreover have "domain_order m ! snd (?sd ! j) = dmn ! j"
    using at [of j] j j' list_index_nth by fastforce
  moreover have "domain_order m ! snd (?sd ! j') = dmn ! j'"
    using at [of j'] j' list_index_nth by fastforce
  ultimately have "snd (?sd ! j) \<noteq> snd (?sd ! j')" by metis
  then have "snd (?sd ! j) < snd (?sd ! j')" using le by simp
  then show "\<exists>p q. list_index (domain_order m) (dmn ! j) = Inr p \<and>
               list_index (domain_order m) (dmn ! j') = Inr q \<and> p < q"
    using at [of j] at [of j'] j j' by auto
qed

lemma DomainConcatenation_domain:
  assumes "DomainConcatenation cs m copy_this = Inr dc"
  shows "sorted_domain m (concat (map child_domain cs)) = Inr (domain dc)"
proof -
  from assms obtain merged where
    g: "get_children_domains cs = Inr merged" and s: "sorted_domain m merged = Inr (domain dc)"
    unfolding DomainConcatenation_def
    by (auto split: sum.splits if_splits option.splits)
  have "merged = concat (map child_domain cs)"
    using get_children_domains_loop_result [of "[]" cs merged] g
    by (simp add: get_children_domains_def)
  then show ?thesis using s by simp
qed

lemma precedes_mk_slice: "precedes (mk_slice a b) (mk_slice c d) = (b \<le> c)"
  by (simp add: precedes_def mk_slice_def)

lemma sum_take_Suc:
  "k < length (ns :: nat list) \<Longrightarrow> sum_list (take (Suc k) ns) = sum_list (take k ns) + ns ! k"
  by (simp add: take_Suc_conv_app_nth)

lemma lex_index:
  assumes "j < L" "j' < L" "i < i' \<or> (i = i' \<and> j < j')"
  shows "Suc (i * L + j) \<le> i' * L + (j' :: nat)"
proof -
  from assms(3) show ?thesis
  proof
    assume "i < i'"
    then have "Suc i \<le> i'" by simp
    then have "Suc i * L \<le> i' * L" by (rule mult_le_mono1)
    then show ?thesis using assms(1) by simp
  next
    assume "i = i' \<and> j < j'"
    then show ?thesis by simp
  qed
qed

lemma div_mod_flat:
  "b < L \<Longrightarrow> (a * L + b) div L = (a :: nat) \<and> (a * L + b) mod L = b"
proof -
  assume b: "b < L"
  then have "L \<noteq> 0" by auto
  then have "(a * L + b) div L = a + b div L" by (rule div_mult_self3)
  then show ?thesis using b by simp
qed

lemma flat_index_less:
  assumes "i < n" "j < (L :: nat)"
  shows "i * L + j < n * L"
proof -
  have "Suc i \<le> n" using assms(1) by simp
  then have "Suc i * L \<le> n * L" by (rule mult_le_mono1)
  then show ?thesis using assms(2) by simp
qed

text \<open>
  Claim C1, as the code has it: the domains of the node are those of its children, in
  the canonical order of the mesh (by their index in \<open>domain_order\<close>), and the slice map is
  built by iterating the secondary index \<open>0..secondary_dimensions_npts-1\<close> and, for each
  index, the domains in that order, with one running cursor.  So the slice of the domain at position \<open>j\<close> for the
  index \<open>i\<close> starts after the points of all pairs visited before \<open>(i, j)\<close> and has the
  length of that domain at that index; every slice of an earlier index precedes every
  slice of a later index, and within one index the slice of an earlier domain precedes
  that of a later domain.
\<close>

theorem slices_secondary_index_major:
  assumes "DomainConcatenation cs m None = Inr dc"
    and "i < secondary_dimensions_npts dc" and "i' < secondary_dimensions_npts dc"
    and "j < length (domain dc)" and "j' < length (domain dc)"
  shows "set (domain dc) = set (concat (map child_domain cs)) \<and>
         (j < j' \<longrightarrow>
            (\<exists>p q. list_index (domain_order m) (domain dc ! j) = Inr p \<and>
                   list_index (domain_order m) (domain dc ! j') = Inr q \<and> p < q)) \<and>
         defaultdict_get (slices dc) (domain dc ! j) ! i =
           mk_slice
             (sum_list (map (npts_of m)
                (take (i * length (domain dc) + j)
                   (List.product [0..<secondary_dimensions_npts dc] (domain dc)))))
             (sum_list (map (npts_of m)
                (take (i * length (domain dc) + j)
                   (List.product [0..<secondary_dimensions_npts dc] (domain dc))))
              + npts_of m (i, domain dc ! j)) \<and>
         (i < i' \<or> (i = i' \<and> j < j') \<longrightarrow>
            precedes (defaultdict_get (slices dc) (domain dc ! j) ! i)
                     (defaultdict_get (slices dc) (domain dc ! j') ! i'))"
proof -
  let ?n = "secondary_dimensions_npts dc"
  let ?L = "length (domain dc)"
  let ?ps = "List.product [0..<?n] (domain dc)"
  let ?ns = "map (npts_of m) ?ps"
  note f = created_slices_chain [OF assms(1)]
  have lps: "length ?ps = ?n * ?L" by simp
  have at: "\<And>a b. a < ?n \<Longrightarrow> b < ?L \<Longrightarrow>
      a * ?L + b < ?n * ?L \<and> ?ps ! (a * ?L + b) = (a, domain dc ! b) \<and>
      defaultdict_get (slices dc) (domain dc ! b) ! a =
        mk_slice (sum_list (take (a * ?L + b) ?ns)) (sum_list (take (Suc (a * ?L + b)) ?ns))"
  proof -
    fix a b assume a: "a < ?n" and b: "b < ?L"
    have k: "a * ?L + b < ?n * ?L" using a b by (rule flat_index_less)
    have "?ps ! (a * ?L + b) =
            ([0..<?n] ! ((a * ?L + b) div ?L), domain dc ! ((a * ?L + b) mod ?L))"
      using k by (simp add: product_nth)
    moreover have "(a * ?L + b) div ?L = a" and "(a * ?L + b) mod ?L = b"
      using b div_mod_flat [of b ?L a] by simp_all
    ultimately have p: "?ps ! (a * ?L + b) = (a, domain dc ! b)" using a by simp
    have "created_slices dc ! (a * ?L + b) = defaultdict_get (slices dc) (domain dc ! b) ! a"
      unfolding created_slices_def using k p lps by (simp del: length_product)
    moreover have "created_slices dc ! (a * ?L + b) =
        mk_slice (sum_list (take (a * ?L + b) ?ns)) (sum_list (take (Suc (a * ?L + b)) ?ns))"
      using chain_nth [of "a * ?L + b" ?ns 0] k f(1) by simp
    ultimately show "a * ?L + b < ?n * ?L \<and> ?ps ! (a * ?L + b) = (a, domain dc ! b) \<and>
      defaultdict_get (slices dc) (domain dc ! b) ! a =
        mk_slice (sum_list (take (a * ?L + b) ?ns)) (sum_list (take (Suc (a * ?L + b)) ?ns))"
      using k p by simp
  qed
  note x = at [OF assms(2) assms(4)]
  note y = at [OF assms(3) assms(5)]
  have kx: "i * ?L + j < length ?ps" using x by simp
  then have kn: "i * ?L + j < length ?ns" by simp
  have "?ns ! (i * ?L + j) = npts_of m (?ps ! (i * ?L + j))"
    using kx by (rule nth_map)
  then have "?ns ! (i * ?L + j) = npts_of m (i, domain dc ! j)" using x by simp
  then have "sum_list (take (Suc (i * ?L + j)) ?ns) =
          sum_list (take (i * ?L + j) ?ns) + npts_of m (i, domain dc ! j)"
    using sum_take_Suc [OF kn] by simp
  then have first: "defaultdict_get (slices dc) (domain dc ! j) ! i =
      mk_slice (sum_list (map (npts_of m) (take (i * ?L + j) ?ps)))
        (sum_list (map (npts_of m) (take (i * ?L + j) ?ps)) + npts_of m (i, domain dc ! j))"
    using x by (simp add: take_map)
  have second: "i < i' \<or> (i = i' \<and> j < j') \<longrightarrow>
            precedes (defaultdict_get (slices dc) (domain dc ! j) ! i)
                     (defaultdict_get (slices dc) (domain dc ! j') ! i')"
  proof
    assume "i < i' \<or> (i = i' \<and> j < j')"
    then have "Suc (i * ?L + j) \<le> i' * ?L + j'"
      using assms(4) assms(5) by (intro lex_index)
    then have "sum_list (take (Suc (i * ?L + j)) ?ns) \<le> sum_list (take (i' * ?L + j') ?ns)"
      by (rule sum_take_mono)
    then show "precedes (defaultdict_get (slices dc) (domain dc ! j) ! i)
                     (defaultdict_get (slices dc) (domain dc ! j') ! i')"
      using x y by (simp add: precedes_mk_slice)
  qed
  note canon = sorted_domain_canonical [OF DomainConcatenation_domain [OF assms(1)]]
  have doms: "set (domain dc) = set (concat (map child_domain cs))" by (rule canon(1))
  have order: "j < j' \<longrightarrow>
            (\<exists>p q. list_index (domain_order m) (domain dc ! j) = Inr p \<and>
                   list_index (domain_order m) (domain dc ! j') = Inr q \<and> p < q)"
    using canon(2) [of j j'] assms(5) by blast
  show ?thesis using doms order first second by blast
qed

text \<open>
  Claim C1, witness: over a mesh whose canonical order is \<open>B\<close>, \<open>A\<close>, with two secondary
  points, 3 points on \<open>B\<close> and 2 on \<open>A\<close>, children given as \<open>A\<close>, \<open>B\<close> yield the domain
  \<open>[B, A]\<close>; the slice of \<open>A\<close> at index 0 is \<open>[3,5)\<close> and precedes the slice of \<open>B\<close> at
  index 1.
\<close>

theorem slices_secondary_index_major_witness:
  "\<exists>dc. DomainConcatenation [child_on ''A'', child_on ''B''] (mesh_BA [3, 3] [2, 2]) None = Inr dc \<and>
     domain dc = [''B'', ''A''] \<and> secondary_dimensions_npts dc = 2 \<and>
     set (domain dc) = set (concat (map child_domain [child_on ''A'', child_on ''B''])) \<and>
     (\<exists>p q. list_index (domain_order (mesh_BA [3, 3] [2, 2])) (domain dc ! 0) = Inr p \<and>
            list_index (domain_order (mesh_BA [3, 3] [2, 2])) (domain dc ! 1) = Inr q \<and> p < q) \<and>
     defaultdict_get (slices dc) (domain dc ! 1) ! 0 = mk_slice 3 5 \<and>
     precedes (defaultdict_get (slices dc) (domain dc ! 1) ! 0)
              (defaultdict_get (slices dc) (domain dc ! 0) ! 1)"
proof -
  have "case DomainConcatenation [child_on ''A'', child_on ''B''] (mesh_BA [3, 3] [2, 2]) None of
          Inl e \<Rightarrow> False
        | Inr dc \<Rightarrow> domain dc = [''B'', ''A''] \<and> secondary_dimensions_npts dc = 2 \<and>
            defaultdict_get (slices dc) ''A'' ! 0 = mk_slice 3 5"
    unfolding child_on_def mesh_BA_def by code_simp
  then obtain dc where
    dc: "DomainConcatenation [child_on ''A'', child_on ''B''] (mesh_BA [3, 3] [2, 2]) None = Inr dc"
    and d: "domain dc = [''B'', ''A'']" and n: "secondary_dimensions_npts dc = 2"
    and s: "defaultdict_get (slices dc) ''A'' ! 0 = mk_slice 3 5"
    by (auto split: sum.splits)
  have h: "0 < secondary_dimensions_npts dc" "1 < secondary_dimensions_npts dc"
    "1 < length (domain dc)" "0 < length (domain dc)"
    by (simp_all add: d n)
  note t1 = slices_secondary_index_major [OF dc h(1) h(2) h(3) h(4)]
  note t2 = slices_secondary_index_major [OF dc h(1) h(2) h(4) h(3)]
  have doms: "set (domain dc) = set (concat (map child_domain [child_on ''A'', child_on ''B'']))"
    using t1 by (rule conjunct1)
  have "(0 :: nat) < 1 \<longrightarrow>
     (\<exists>p q. list_index (domain_order (mesh_BA [3, 3] [2, 2])) (domain dc ! 0) = Inr p \<and>
            list_index (domain_order (mesh_BA [3, 3] [2, 2])) (domain dc ! 1) = Inr q \<and> p < q)"
    using t2 by (rule conjunct2 [THEN conjunct1])
  then have order: "\<exists>p q. list_index (domain_order (mesh_BA [3, 3] [2, 2])) (domain dc ! 0) = Inr p \<and>
            list_index (domain_order (mesh_BA [3, 3] [2, 2])) (domain dc ! 1) = Inr q \<and> p < q"
    by simp
  have "(0 :: nat) < 1 \<or> ((0 :: nat) = 1 \<and> (1 :: nat) < 0) \<longrightarrow>
        precedes (defaultdict_get (slices dc) (domain dc ! 1) ! 0)
                 (defaultdict_get (slices dc) (domain dc ! 0) ! 1)"
    using t1 by (rule conjunct2 [THEN conjunct2, THEN conjunct2])
  then have pre: "precedes (defaultdict_get (slices dc) (domain dc ! 1) ! 0)
                 (defaultdict_get (slices dc) (domain dc ! 0) ! 1)"
    by simp
  have sl: "defaultdict_get (slices dc) (domain dc ! 1) ! 0 = mk_slice 3 5"
    using s d by simp
  show ?thesis using dc d n doms order pre sl by (intro exI [of _ dc] conjI)
qed

text \<open>
  Claim C1, as stated, fails: with two domains of one point and two secondary points the
  slices are \<open>A: [0,1), [2,3)\<close> and \<open>B: [1,2), [3,4)\<close>, so the second slice of the
  earlier domain \<open>A\<close> does not precede the first slice of the later domain \<open>B\<close>.
\<close>

theorem slices_not_domain_major:
  "map_sum id slices
     (DomainConcatenation [child_on ''A'', child_on ''B''] (mesh_AB [1, 1] [1, 1]) None)
     = Inr [(''A'', [mk_slice 0 1, mk_slice 2 3]), (''B'', [mk_slice 1 2, mk_slice 3 4])] \<and>
   map_sum id domain
     (DomainConcatenation [child_on ''A'', child_on ''B''] (mesh_AB [1, 1] [1, 1]) None)
     = Inr [''A'', ''B''] \<and>
   \<not> precedes (mk_slice 2 3) (mk_slice 1 2)"
  unfolding child_on_def mesh_AB_def by code_simp

text \<open>
  A mesh with canonical order \<open>A\<close>, \<open>B\<close>, one secondary point, 2 points on \<open>A\<close> and
  3 on \<open>B\<close>, and one child on each domain, given in either order.
\<close>

lemma two_domain_layout:
  assumes o: "domain_order m = [''A'', ''B'']"
    and a: "map_of (submeshes m) ''A'' = Some [2]" and b: "map_of (submeshes m) ''B'' = Some [3]"
  shows "sorted_domain m [''A'', ''B''] = Inr [''A'', ''B'']"
    and "sorted_domain m [''B'', ''A''] = Inr [''A'', ''B'']"
    and "create_slices m (Suc 0) [''A'', ''B''] =
           Inr [(''A'', [mk_slice 0 2]), (''B'', [mk_slice 2 5])]"
    and "create_slices m (Suc 0) [''A''] = Inr [(''A'', [mk_slice 0 2])]"
    and "create_slices m (Suc 0) [''B''] = Inr [(''B'', [mk_slice 0 3])]"
proof -
  show "sorted_domain m [''A'', ''B''] = Inr [''A'', ''B'']"
    by (simp add: sorted_domain_def o)
  show "sorted_domain m [''B'', ''A''] = Inr [''A'', ''B'']"
    by (simp add: sorted_domain_def o)
  show "create_slices m (Suc 0) [''A'', ''B''] =
           Inr [(''A'', [mk_slice 0 2]), (''B'', [mk_slice 2 5])]"
    by (simp add: create_slices_def first_item_def dict_get_def item_def append_slice_def
          mk_slice_def a b)
  show "create_slices m (Suc 0) [''A''] = Inr [(''A'', [mk_slice 0 2])]"
    by (simp add: create_slices_def first_item_def dict_get_def item_def append_slice_def
          mk_slice_def a)
  show "create_slices m (Suc 0) [''B''] = Inr [(''B'', [mk_slice 0 3])]"
    by (simp add: create_slices_def first_item_def dict_get_def item_def append_slice_def
          mk_slice_def b)
qed

lemma two_domain_construct:
  assumes o: "domain_order m = [''A'', ''B'']"
    and a: "map_of (submeshes m) ''A'' = Some [2]" and b: "map_of (submeshes m) ''B'' = Some [3]"
    and ca: "child_domain cA = [''A'']" "child_auxiliary_domains cA = []"
    and cb: "child_domain cB = [''B'']" "child_auxiliary_domains cB = []"
  shows "DomainConcatenation [cA, cB] m None =
           Inr \<lparr> name = ''domain concatenation'', domain = [''A'', ''B''],
                 auxiliary_domains = [], children = [cA, cB], mesh = m,
                 slices = [(''A'', [mk_slice 0 2]), (''B'', [mk_slice 2 5])],
                 size_attr = Some 5,
                 children_slices = [[(''A'', [mk_slice 0 2])], [(''B'', [mk_slice 0 3])]],
                 secondary_dimensions_npts = 1 \<rparr>"
    and "DomainConcatenation [cB, cA] m None =
           Inr \<lparr> name = ''domain concatenation'', domain = [''A'', ''B''],
                 auxiliary_domains = [], children = [cB, cA], mesh = m,
                 slices = [(''A'', [mk_slice 0 2]), (''B'', [mk_slice 2 5])],
                 size_attr = Some 5,
                 children_slices = [[(''B'', [mk_slice 0 3])], [(''A'', [mk_slice 0 2])]],
                 secondary_dimensions_npts = 1 \<rparr>"
proof -
  note l = two_domain_layout [OF o a b]
  have d1: "get_children_domains [cA, cB] = Inr [''A'', ''B'']"
    and d2: "get_children_domains [cB, cA] = Inr [''B'', ''A'']"
    by (simp_all add: get_children_domains_def ca cb)
  have x1: "get_children_auxiliary_domains [cA, cB] = Inr []"
    and x2: "get_children_auxiliary_domains [cB, cA] = Inr []"
    by (simp_all add: get_children_auxiliary_domains_def ca cb)
  have sa: "dict_get (submeshes m) ''A'' = Inr [2]" by (simp add: dict_get_def a)
  show "DomainConcatenation [cA, cB] m None =
           Inr \<lparr> name = ''domain concatenation'', domain = [''A'', ''B''],
                 auxiliary_domains = [], children = [cA, cB], mesh = m,
                 slices = [(''A'', [mk_slice 0 2]), (''B'', [mk_slice 2 5])],
                 size_attr = Some 5,
                 children_slices = [[(''A'', [mk_slice 0 2])], [(''B'', [mk_slice 0 3])]],
                 secondary_dimensions_npts = 1 \<rparr>"
    by (simp add: DomainConcatenation_def d1 x1 l sa defaultdict_get_def last_item_def ca cb
          mk_slice_def)
  show "DomainConcatenation [cB, cA] m None =
           Inr \<lparr> name = ''domain concatenation'', domain = [''A'', ''B''],
                 auxiliary_domains = [], children = [cB, cA], mesh = m,
                 slices = [(''A'', [mk_slice 0 2]), (''B'', [mk_slice 2 5])],
                 size_attr = Some 5,
                 children_slices = [[(''B'', [mk_slice 0 3])], [(''A'', [mk_slice 0 2])]],
                 secondary_dimensions_npts = 1 \<rparr>"
    by (simp add: DomainConcatenation_def d2 x2 l sa defaultdict_get_def last_item_def ca cb
          mk_slice_def)
qed

lemma two_domain_evaluate:
  assumes "children dc = cs" and "size_attr dc = Some 5"
    and "slices dc = [(''A'', [mk_slice 0 2]), (''B'', [mk_slice 2 5])]"
    and "child_evaluate eval_other y cA = Inr (Array2 [[a1], [a2]])"
    and "child_evaluate eval_other y cB = Inr (Array2 [[b1], [b2], [b3]])"
  shows "cs = [cA, cB] \<Longrightarrow>
         children_slices dc = [[(''A'', [mk_slice 0 2])], [(''B'', [mk_slice 0 3])]] \<Longrightarrow>
         evaluate dc eval_other y = Inr [[Some a1], [Some a2], [Some b1], [Some b2], [Some b3]]"
    and "cs = [cB, cA] \<Longrightarrow>
         children_slices dc = [[(''B'', [mk_slice 0 3])], [(''A'', [mk_slice 0 2])]] \<Longrightarrow>
         evaluate dc eval_other y = Inr [[Some a1], [Some a2], [Some b1], [Some b2], [Some b3]]"
proof -
  have five: "replicate (nat 5) [None] = [[None], [None], [None], [None], [None :: 'a option]]"
    by (simp add: eval_nat_numeral)
  show "cs = [cA, cB] \<Longrightarrow>
         children_slices dc = [[(''A'', [mk_slice 0 2])], [(''B'', [mk_slice 0 3])]] \<Longrightarrow>
         evaluate dc eval_other y = Inr [[Some a1], [Some a2], [Some b1], [Some b2], [Some b3]]"
    using assms
    by (simp add: evaluate_def concatenation_evaluate_def np_empty_def five defaultdict_get_def
          item_def assign_slice_def slice_indices_def clip_bound_def get_slice_def mk_slice_def)
  show "cs = [cB, cA] \<Longrightarrow>
         children_slices dc = [[(''B'', [mk_slice 0 3])], [(''A'', [mk_slice 0 2])]] \<Longrightarrow>
         evaluate dc eval_other y = Inr [[Some a1], [Some a2], [Some b1], [Some b2], [Some b3]]"
    using assms
    by (simp add: evaluate_def concatenation_evaluate_def np_empty_def five defaultdict_get_def
          item_def assign_slice_def slice_indices_def clip_bound_def get_slice_def mk_slice_def)
qed

text \<open>
  Claim C8: the size of a DomainConcatenation built from a mesh is the stop of the last
  slice of its last domain, which is the number of points of all its domains at all
  secondary indices.  Over any mesh with domain order \<open>[A, B]\<close>, one secondary point,
  2 points on \<open>A\<close> and 3 on \<open>B\<close>, with one child on \<open>A\<close> and one on \<open>B\<close> given in either
  order, the size is 5, and when the children evaluate to the columns \<open>[a1, a2]\<close> and
  \<open>[b1, b2, b3]\<close> the node evaluates to the column \<open>[a1, a2, b1, b2, b3]\<close>: for
  \<open>[1, 2]\<close> and \<open>[3, 4, 5]\<close>, to \<open>[1, 2, 3, 4, 5]\<close>.
\<close>

theorem size_and_evaluate_canonical:
  "(DomainConcatenation cs m None = Inr dc \<longrightarrow>
      size_attr dc = stop (last (defaultdict_get (slices dc) (last (domain dc)))) \<and>
      size_attr dc =
        Some (int (sum_list (map (npts_of m)
           (List.product [0..<secondary_dimensions_npts dc] (domain dc)))))) \<and>
   (domain_order m2 = [''A'', ''B''] \<and>
    map_of (submeshes m2) ''A'' = Some [2] \<and> map_of (submeshes m2) ''B'' = Some [3] \<and>
    child_domain cA = [''A''] \<and> child_auxiliary_domains cA = [] \<and>
    child_domain cB = [''B''] \<and> child_auxiliary_domains cB = [] \<and>
    child_evaluate eval_other y cA = Inr (Array2 [[a1], [a2]]) \<and>
    child_evaluate eval_other y cB = Inr (Array2 [[b1], [b2], [b3]]) \<longrightarrow>
      (\<exists>d. DomainConcatenation [cA, cB] m2 None = Inr d \<and> size_attr d = Some 5 \<and>
           evaluate d eval_other y =
             Inr [[Some a1], [Some a2], [Some b1], [Some b2], [Some b3]]) \<and>
      (\<exists>d. DomainConcatenation [cB, cA] m2 None = Inr d \<and> size_attr d = Some 5 \<and>
           evaluate d eval_other y =
             Inr [[Some a1], [Some a2], [Some b1], [Some b2], [Some b3]]))"
proof (intro conjI impI)
  assume c: "DomainConcatenation cs m None = Inr dc"
  from DomainConcatenation_fields [OF c] show
    "size_attr dc = stop (last (defaultdict_get (slices dc) (last (domain dc))))"
    by (auto simp: last_item_def split: if_splits)
  let ?ns = "map (npts_of m) (List.product [0..<secondary_dimensions_npts dc] (domain dc))"
  note f = created_slices_chain [OF c]
  have "0 < length ?ns" using f(3) f(4) by simp
  then have "?ns \<noteq> []" by (metis length_greater_0_conv)
  then have "stop (last (chain 0 ?ns)) = Some (int (sum_list ?ns))"
    using chain_last_stop [of ?ns 0] by simp
  then show "size_attr dc = Some (int (sum_list ?ns))" using f(1) f(6) by simp
next
  assume h: "domain_order m2 = [''A'', ''B''] \<and>
    map_of (submeshes m2) ''A'' = Some [2] \<and> map_of (submeshes m2) ''B'' = Some [3] \<and>
    child_domain cA = [''A''] \<and> child_auxiliary_domains cA = [] \<and>
    child_domain cB = [''B''] \<and> child_auxiliary_domains cB = [] \<and>
    child_evaluate eval_other y cA = Inr (Array2 [[a1], [a2]]) \<and>
    child_evaluate eval_other y cB = Inr (Array2 [[b1], [b2], [b3]])"
  then have o: "domain_order m2 = [''A'', ''B'']"
    and a: "map_of (submeshes m2) ''A'' = Some [2]" and b: "map_of (submeshes m2) ''B'' = Some [3]"
    and ca: "child_domain cA = [''A'']" "child_auxiliary_domains cA = []"
    and cb: "child_domain cB = [''B'']" "child_auxiliary_domains cB = []"
    and ea: "child_evaluate eval_other y cA = Inr (Array2 [[a1], [a2]])"
    and eb: "child_evaluate eval_other y cB = Inr (Array2 [[b1], [b2], [b3]])"
    by simp_all
  note k = two_domain_construct [OF o a b ca cb]
  let ?d1 = "\<lparr> name = ''domain concatenation'', domain = [''A'', ''B''],
                 auxiliary_domains = [], children = [cA, cB], mesh = m2,
                 slices = [(''A'', [mk_slice 0 2]), (''B'', [mk_slice 2 5])],
                 size_attr = Some 5,
                 children_slices = [[(''A'', [mk_slice 0 2])], [(''B'', [mk_slice 0 3])]],
                 secondary_dimensions_npts = 1 \<rparr>"
  let ?d2 = "\<lparr> name = ''domain concatenation'', domain = [''A'', ''B''],
                 auxiliary_domains = [], children = [cB, cA], mesh = m2,
                 slices = [(''A'', [mk_slice 0 2]), (''B'', [mk_slice 2 5])],
                 size_attr = Some 5,
                 children_slices = [[(''B'', [mk_slice 0 3])], [(''A'', [mk_slice 0 2])]],
                 secondary_dimensions_npts = 1 \<rparr>"
  have e1: "evaluate ?d1 eval_other y = Inr [[Some a1], [Some a2], [Some b1], [Some b2], [Some b3]]"
    by (rule two_domain_evaluate(1) [OF _ _ _ ea eb]) simp_all
  have e2: "evaluate ?d2 eval_other y = Inr [[Some a1], [Some a2], [Some b1], [Some b2], [Some b3]]"
    by (rule two_domain_evaluate(2) [OF _ _ _ ea eb]) simp_all
  show "\<exists>d. DomainConcatenation [cA, cB] m2 None = Inr d \<and> size_attr d = Some 5 \<and>
           evaluate d eval_other y = Inr [[Some a1], [Some a2], [Some b1], [Some b2], [Some b3]]"
    using k(1) e1 by (intro exI [of _ ?d1]) simp
  show "\<exists>d. DomainConcatenation [cB, cA] m2 None = Inr d \<and> size_attr d = Some 5 \<and>
           evaluate d eval_other y = Inr [[Some a1], [Some a2], [Some b1], [Some b2], [Some b3]]"
    using k(2) e2 by (intro exI [of _ ?d2]) simp
qed

text \<open>
  Claim C8, witness: on that mesh, with the child on \<open>A\<close> evaluating to \<open>[1, 2]\<close> and the
  child on \<open>B\<close> to \<open>[3, 4, 5]\<close>, the size is 5 and the node evaluates to
  \<open>[1, 2, 3, 4, 5]\<close>, whether the children are given as \<open>A\<close>, \<open>B\<close> or as \<open>B\<close>, \<open>A\<close>.
\<close>

theorem size_and_evaluate_canonical_witness:
  "(\<exists>d. DomainConcatenation [child_on ''A'', child_on ''B''] (mesh_AB [2] [3]) None = Inr d \<and>
        size_attr d = Some 5 \<and>
        size_attr d = stop (last (defaultdict_get (slices d) (last (domain d)))) \<and>
        size_attr d = Some (int (sum_list (map (npts_of (mesh_AB [2] [3]))
           (List.product [0..<secondary_dimensions_npts d] (domain d))))) \<and>
        evaluate d eval_by_name None = Inr [[Some 1], [Some 2], [Some 3], [Some 4], [Some 5]]) \<and>
   (\<exists>d. DomainConcatenation [child_on ''B'', child_on ''A''] (mesh_AB [2] [3]) None = Inr d \<and>
        size_attr d = Some 5 \<and>
        evaluate d eval_by_name None = Inr [[Some 1], [Some 2], [Some 3], [Some 4], [Some 5]])"
proof -
  have h: "domain_order (mesh_AB [2] [3]) = [''A'', ''B''] \<and>
    map_of (submeshes (mesh_AB [2] [3])) ''A'' = Some [2] \<and>
    map_of (submeshes (mesh_AB [2] [3])) ''B'' = Some [3] \<and>
    child_domain (child_on ''A'') = [''A''] \<and> child_auxiliary_domains (child_on ''A'') = [] \<and>
    child_domain (child_on ''B'') = [''B''] \<and> child_auxiliary_domains (child_on ''B'') = [] \<and>
    child_evaluate eval_by_name None (child_on ''A'') = Inr (Array2 [[1], [2]]) \<and>
    child_evaluate eval_by_name None (child_on ''B'') = Inr (Array2 [[3], [4], [5]])"
    by (simp add: mesh_AB_def child_on_def eval_by_name_def)
  note t = size_and_evaluate_canonical
    [of _ _ _ "mesh_AB [2] [3]" "child_on ''A''" "child_on ''B''" eval_by_name None 1 2 3 4 5]
  from t h have both:
    "(\<exists>d. DomainConcatenation [child_on ''A'', child_on ''B''] (mesh_AB [2] [3]) None = Inr d \<and>
        size_attr d = Some 5 \<and>
        evaluate d eval_by_name None = Inr [[Some 1], [Some 2], [Some 3], [Some 4], [Some 5]]) \<and>
     (\<exists>d. DomainConcatenation [child_on ''B'', child_on ''A''] (mesh_AB [2] [3]) None = Inr d \<and>
        size_attr d = Some 5 \<and>
        evaluate d eval_by_name None = Inr [[Some 1], [Some 2], [Some 3], [Some 4], [Some 5]])"
    by blast
  then obtain d where
    d: "DomainConcatenation [child_on ''A'', child_on ''B''] (mesh_AB [2] [3]) None = Inr d"
    and s: "size_attr d = Some 5"
    and e: "evaluate d eval_by_name None = Inr [[Some 1], [Some 2], [Some 3], [Some 4], [Some 5]]"
    by blast
  from size_and_evaluate_canonical
    [THEN conjunct1, of "[child_on ''A'', child_on ''B'']" "mesh_AB [2] [3]" d] d
  have g: "size_attr d = stop (last (defaultdict_get (slices d) (last (domain d)))) \<and>
      size_attr d = Some (int (sum_list (map (npts_of (mesh_AB [2] [3]))
           (List.product [0..<secondary_dimensions_npts d] (domain d)))))"
    by (rule mp)
  show ?thesis using both d s e g by blast
qed

section \<open>Simplifying a DomainConcatenation of StateVectors\<close>

text \<open>
  Claim C4 on the code: the children \<open>StateVector(slice(0,1), slice(2,3))\<close> on \<open>A\<close> and
  \<open>StateVector(slice(1,2), slice(3,4))\<close> on \<open>B\<close> have masks that sum to 1 everywhere, so
  simplify collapses their DomainConcatenation to \<open>StateVector(slice(0, 4))\<close>.  On
  \<open>y = [10, 20, 30, 40]\<close> the concatenation evaluates to the column \<open>[10, 30, 20, 40]\<close>
  and its replacement to \<open>[10, 20, 30, 40]\<close>.
\<close>

theorem simplify_collapse_changes_value:
  "map (map_sum id StateVectorChild)
     [StateVector False [SliceArg (Slice (Some 0) (Some 1)), SliceArg (Slice (Some 2) (Some 3))]
        None (Some [''A'']) None None,
      StateVector False [SliceArg (Slice (Some 1) (Some 2)), SliceArg (Slice (Some 3) (Some 4))]
        None (Some [''B'']) None None]
     = map Inr interleaved_children \<and>
   simplify_constructed interleaved_children (mesh_AB [2] [2])
     = Inr (SimplifiedStateVector sv_0_4) \<and>
   evaluate_constructed interleaved_children (mesh_AB [2] [2])
       (Some (Array1 [10, 20, 30, 40 :: int]))
     = Inr [[Some 10], [Some 30], [Some 20], [Some 40]] \<and>
   base_evaluate sv_0_4 (Some (Array1 [10, 20, 30, 40 :: int]))
     = Inr [[10], [20], [30], [40]]"
  unfolding interleaved_children_def sv_0_4_def sv_on_def simplify_constructed_def
    evaluate_constructed_def mesh_AB_def
  by code_simp

text \<open>
  Claim C3 on the code: for the children \<open>StateVector(slice(0, 3))\<close> on \<open>A\<close> and
  \<open>StateVector(slice(0, 2))\<close> on \<open>B\<close>, whose masks overlap, simplify raises ValueError
  instead of returning a copy: the masks are padded to the length of the mask of the last
  child, which is not the longest here, and \<open>np.zeros\<close> gets a negative length.  With
  the longest mask last the code does what the claim says: contiguous children collapse
  to \<open>StateVector(slice(0, 4))\<close>, and children with a gap give a copy whose domain is
  empty.
\<close>

theorem simplify_raises_when_last_mask_shorter:
  "map (map_sum id StateVectorChild)
     [StateVector False [SliceArg (Slice (Some 0) (Some 3))] None (Some [''A'']) None None,
      StateVector False [SliceArg (Slice (Some 0) (Some 2))] None (Some [''B'']) None None]
     = map Inr overlapping_children \<and>
   map_sum id size_attr (DomainConcatenation overlapping_children (mesh_AB [3] [2]) None)
     = Inr (Some 5) \<and>
   simplify_constructed overlapping_children (mesh_AB [3] [2]) = Inl ValueError \<and>
   simplify_constructed contiguous_children (mesh_AB [2] [2])
     = Inr (SimplifiedStateVector sv_0_4) \<and>
   map_sum id is_collapsed (simplify_constructed gapped_children (mesh_AB [2] [2]))
     = Inr False \<and>
   map_sum id simplified_domain (simplify_constructed gapped_children (mesh_AB [2] [2]))
     = Inr []"
  unfolding overlapping_children_def contiguous_children_def gapped_children_def
    sv_0_4_def sv_on_def simplify_constructed_def mesh_AB_def
  by code_simp

end
